theory Spec2Isabelle
  imports Main "HOL-Library.Monad_Syntax" "HOL-Library.Sublist"
begin

section \<open>Python values\<close>

text \<open>
  The program works on the values that \<^verbatim>\<open>json.loads\<close> returns: \<^verbatim>\<open>None\<close>, booleans,
  integers, strings, lists and dictionaries with string keys. A dictionary keeps its
  entries in insertion order and is an association list here; a Python dictionary has
  no two entries with the same key, and the lookup takes the first entry of a key.
  A string is a \<^typ>\<open>string\<close>, one \<^typ>\<open>char\<close> for each code point below 256.
  A JSON number with a fraction or an exponent is a float.
\<close>

text \<open>
  A float is an IEEE 754 double: \<open>Finite s m e\<close> is the number \<open>m * 2 ^ e\<close>, negative when
  \<open>s\<close> holds, with \<open>m < 2 ^ 53\<close> and \<open>e\<close> from \<open>- 1074\<close> to \<open>971\<close>, where \<open>m\<close> is at least
  \<open>2 ^ 52\<close> unless \<open>e = - 1074\<close>, and zero is \<open>Finite s 0 0\<close>; or one of the two infinities;
  or the value that is not a number.
\<close>

datatype pyfloat = Finite bool int int | Infinity bool | NaN

datatype json =
    JNull
  | JBool bool
  | JInt int
  | JFloat pyfloat
  | JStr string
  | JList "json list"
  | JObj "(string \<times> json) list"

text \<open>Truth value testing (\<^verbatim>\<open>if x\<close>, \<^verbatim>\<open>not x\<close>, \<^verbatim>\<open>x or y\<close>).\<close>

fun truthy :: "json \<Rightarrow> bool" where
  "truthy JNull = False"
| "truthy (JBool b) = b"
| "truthy (JInt i) = (i \<noteq> 0)"
| "truthy (JFloat f) = (case f of Finite s m e \<Rightarrow> m \<noteq> 0 | _ \<Rightarrow> True)"
| "truthy (JStr s) = (s \<noteq> [])"
| "truthy (JList xs) = (xs \<noteq> [])"
| "truthy (JObj kvs) = (kvs \<noteq> [])"

text \<open>\<^verbatim>\<open>isinstance(x, dict)\<close>, \<^verbatim>\<open>isinstance(x, list)\<close> and \<^verbatim>\<open>type(x).__name__\<close>.\<close>

fun is_dict :: "json \<Rightarrow> bool" where
  "is_dict (JObj kvs) = True"
| "is_dict v = False"

fun is_list :: "json \<Rightarrow> bool" where
  "is_list (JList xs) = True"
| "is_list v = False"

fun type_name :: "json \<Rightarrow> string" where
  "type_name JNull = ''NoneType''"
| "type_name (JBool b) = ''bool''"
| "type_name (JInt i) = ''int''"
| "type_name (JFloat f) = ''float''"
| "type_name (JStr s) = ''str''"
| "type_name (JList xs) = ''list''"
| "type_name (JObj kvs) = ''dict''"

text \<open>
  The exceptions the program's own code can raise: calling \<^verbatim>\<open>.get\<close> on a value that is
  not a dictionary raises \<^verbatim>\<open>AttributeError\<close>, which carries the type name of the value;
  \<^verbatim>\<open>str\<close> of a value that is nested deeper than the interpreter lets it recurse raises
  \<^verbatim>\<open>RecursionError\<close>.
\<close>

datatype py_error = AttributeError string | RecursionError

text \<open>\<^verbatim>\<open>str(error)\<close> of such an exception.\<close>

fun error_str :: "py_error \<Rightarrow> string" where
  "error_str (AttributeError tn) =
     [CHR 0x27] @ tn @ [CHR 0x27] @ '' object has no attribute '' @ [CHR 0x27] @ ''get''
       @ [CHR 0x27]"
| "error_str RecursionError =
     ''maximum recursion depth exceeded while getting the repr of an object''"

text \<open>
  \<^verbatim>\<open>d.get(key, default)\<close> on a dictionary: the value of the key, the default when the
  key is missing. A key that is present with the value \<^verbatim>\<open>null\<close> gives \<^verbatim>\<open>None\<close>, not the
  default.
\<close>

definition dict_get :: "(string \<times> 'a) list \<Rightarrow> string \<Rightarrow> 'a \<Rightarrow> 'a" where
  "dict_get kvs k dflt = (case map_of kvs k of None \<Rightarrow> dflt | Some v \<Rightarrow> v)"

text \<open>\<^verbatim>\<open>x.get(key, default)\<close> on any value: only a dictionary has the method.\<close>

fun py_get :: "json \<Rightarrow> string \<Rightarrow> json \<Rightarrow> py_error + json" where
  "py_get (JObj kvs) k dflt = Inr (dict_get kvs k dflt)"
| "py_get v k dflt = Inl (AttributeError (type_name v))"

text \<open>
  \<^verbatim>\<open>d[key] = value\<close>: a key that is present keeps its place and takes the new value, a
  new key goes to the end.
\<close>

fun dict_set :: "(string \<times> 'a) list \<Rightarrow> string \<Rightarrow> 'a \<Rightarrow> (string \<times> 'a) list" where
  "dict_set [] k v = [(k, v)]"
| "dict_set ((k', v') # kvs) k v = (if k' = k then (k, v) # kvs else (k', v') # dict_set kvs k v)"

subsection \<open>Text forms\<close>

text \<open>\<^verbatim>\<open>sep.join(parts)\<close>.\<close>

fun join :: "string \<Rightarrow> string list \<Rightarrow> string" where
  "join sep [] = []"
| "join sep [x] = x"
| "join sep (x # y # ys) = x @ sep @ join sep (y # ys)"

text \<open>
  Decimal digits of an integer that is not negative, and \<^verbatim>\<open>str\<close> of an integer.
\<close>

definition digit_char :: "int \<Rightarrow> char" where
  "digit_char d = char_of (48 + nat d)"

function digits_of :: "int \<Rightarrow> string" where
  "digits_of n = (if n < 10 then [digit_char n] else digits_of (n div 10) @ [digit_char (n mod 10)])"
  by pat_completeness auto
termination
  by (relation "measure nat") auto

declare digits_of.simps [simp del]

definition str_int :: "int \<Rightarrow> string" where
  "str_int i = (if i < 0 then CHR ''-'' # digits_of (- i) else digits_of i)"


subsection \<open>Library: floats and their text\<close>

text \<open>Powers with an exponent that is not negative, and the number of bits of a number.\<close>

function ipow :: "int \<Rightarrow> int \<Rightarrow> int" where
  "ipow b n =
     (if n \<le> 0 then 1
      else if even n then (let h = ipow b (n div 2) in h * h)
      else b * ipow b (n - 1))"
  by pat_completeness auto
termination
  by (relation "measure (\<lambda>(b, n). nat n)") auto

declare ipow.simps [simp del]

function bitlen :: "int \<Rightarrow> int" where
  "bitlen n = (if n \<le> 0 then 0 else 1 + bitlen (n div 2))"
  by pat_completeness auto
termination
  by (relation "measure nat") auto

declare bitlen.simps [simp del]

text \<open>
  The integer nearest to the fraction \<open>a / b\<close>, the even one of two that are equally
  near, and the same for \<open>a / (b * 2 ^ e)\<close>.
\<close>

definition rne :: "int \<Rightarrow> int \<Rightarrow> int" where
  "rne a b =
     (let q = a div b; r = a mod b
      in if 2 * r < b then q
         else if b < 2 * r then q + 1
         else if even q then q else q + 1)"

definition scaled :: "int \<Rightarrow> int \<Rightarrow> int \<Rightarrow> int" where
  "scaled a b e = (if 0 \<le> e then rne a (b * ipow 2 e) else rne (a * ipow 2 (- e)) b)"

text \<open>
  The double nearest to the positive fraction \<open>a / b\<close>, with the sign given: the exponent
  is the one that leaves 53 bits of mantissa, or the least exponent; a mantissa that
  rounds up to \<open>2 ^ 53\<close> moves to the next exponent; what lies beyond the largest double
  is an infinity.
\<close>

definition round_double :: "bool \<Rightarrow> int \<Rightarrow> int \<Rightarrow> pyfloat" where
  "round_double neg a b =
     (let e0 = max (bitlen a - bitlen b - 53) (- 1074);
          e1 = (if ipow 2 53 \<le> scaled a b e0 then e0 + 1 else e0);
          m1 = scaled a b e1;
          m = (if m1 = ipow 2 53 then ipow 2 52 else m1);
          e = (if m1 = ipow 2 53 then e1 + 1 else e1)
      in if m = 0 then Finite neg 0 0
         else if 971 < e then Infinity neg
         else Finite neg m e)"

text \<open>
  \<^verbatim>\<open>float(text)\<close> of a decimal numeral with the digits \<open>d\<close> and the exponent \<open>p\<close>: the double
  nearest to \<open>d * 10 ^ p\<close>.
\<close>

definition float_of_decimal :: "bool \<Rightarrow> int \<Rightarrow> int \<Rightarrow> pyfloat" where
  "float_of_decimal neg d p =
     (if d = 0 then Finite neg 0 0
      else if 0 \<le> p then round_double neg (d * ipow 10 p) 1
      else round_double neg d (ipow 10 (- p)))"

text \<open>
  The place of the decimal point of the positive fraction \<open>a / b\<close>: the number of digits
  before the point, or minus the number of zeros after it.
\<close>

function lead_zeros :: "int \<Rightarrow> int \<Rightarrow> int" where
  "lead_zeros a b = (if a \<le> 0 \<or> b \<le> 10 * a then 0 else 1 + lead_zeros (10 * a) b)"
  by pat_completeness auto
termination
  by (relation "measure (\<lambda>(a, b). nat (b - a))") auto

declare lead_zeros.simps [simp del]

definition decpt :: "int \<Rightarrow> int \<Rightarrow> int" where
  "decpt a b = (if b \<le> a then int (length (digits_of (a div b))) else - lead_zeros a b)"

definition float_ratio :: "int \<Rightarrow> int \<Rightarrow> int \<times> int" where
  "float_ratio m e = (if 0 \<le> e then (m * ipow 2 e, 1) else (m, ipow 2 (- e)))"

text \<open>
  \<^verbatim>\<open>repr\<close> of a float writes the least number of digits that \<^verbatim>\<open>float\<close> reads back as the
  same double, and of the numerals with that many digits the nearest. \<open>shortest_at\<close> gives
  the numeral with \<open>n\<close> digits if there is one: it is one of the two numerals around the
  double. Seventeen digits always suffice, and the search ends there.
\<close>

definition shortest_at :: "int \<Rightarrow> int \<Rightarrow> int \<Rightarrow> bool \<Rightarrow> int option" where
  "shortest_at m e n final =
     (let (a, b) = float_ratio m e;
          p = decpt a b - n;
          (a', b') = (if p \<le> 0 then (a * ipow 10 (- p), b) else (a, b * ipow 10 p));
          lo = a' div b'; r = a' mod b'; hi = lo + 1;
          near = (if 2 * r < b' then lo else if b' < 2 * r then hi else if even lo then lo else hi);
          ok_lo = (float_of_decimal False lo p = Finite False m e);
          ok_hi = (float_of_decimal False hi p = Finite False m e)
      in if final \<or> (ok_lo \<and> ok_hi) then Some near
         else if ok_lo then Some lo
         else if ok_hi \<and> r \<noteq> 0 then Some hi
         else None)"

function shortest_digits :: "int \<Rightarrow> int \<Rightarrow> int \<Rightarrow> int \<times> int" where
  "shortest_digits m e n =
     (case shortest_at m e n (17 \<le> n) of
        Some c \<Rightarrow> (c, n)
      | None \<Rightarrow> shortest_digits m e (n + 1))"
  by pat_completeness auto
termination
proof (relation "measure (\<lambda>(m, e, n). nat (17 - n))")
  show "wf (measure (\<lambda>(m, e, n). nat (17 - n)))" by simp
next
  fix m e n :: int
  assume "shortest_at m e n (17 \<le> n) = None"
  then have "n < 17"
    by (auto simp: shortest_at_def Let_def split: prod.splits if_splits)
  then show "((m, e, n + 1), (m, e, n)) \<in> measure (\<lambda>(m, e, n). nat (17 - n))"
    by simp
qed

declare shortest_digits.simps [simp del]

text \<open>The digits of a double without zeros at the end, and the place of the point.\<close>

definition strip_zeros :: "string \<Rightarrow> string" where
  "strip_zeros ds = rev (dropWhile (\<lambda>c. c = CHR ''0'') (rev ds))"

definition float_digits :: "int \<Rightarrow> int \<Rightarrow> string \<times> int" where
  "float_digits m e =
     (let (c, n) = shortest_digits m e 1;
          (a, b) = float_ratio m e;
          ds = digits_of c
      in (strip_zeros ds, decpt a b + (int (length ds) - n)))"

text \<open>
  \<^verbatim>\<open>repr(x)\<close> of a float: with an exponent (of two digits at least) when the point is
  more than 16 places to the right of the first digit or more than 3 to its left, and
  with the point and at least one digit after it otherwise.
\<close>

definition float_repr :: "pyfloat \<Rightarrow> string" where
  "float_repr f =
     (case f of
        NaN \<Rightarrow> ''nan''
      | Infinity neg \<Rightarrow> (if neg then ''-inf'' else ''inf'')
      | Finite neg m e \<Rightarrow>
          (if neg then ''-'' else []) @
          (if m = 0 then ''0.0''
           else
             (let (ds, dp) = float_digits m e; len = int (length ds)
              in if dp \<le> - 4 \<or> 16 < dp then
                   hd ds # (if tl ds = [] then [] else CHR ''.'' # tl ds) @ ''e''
                     @ (if dp - 1 < 0 then ''-'' else ''+'')
                     @ (if \<bar>dp - 1\<bar> < 10 then ''0'' else []) @ digits_of \<bar>dp - 1\<bar>
                 else if dp \<le> 0 then ''0.'' @ replicate (nat (- dp)) CHR ''0'' @ ds
                 else if len \<le> dp then ds @ replicate (nat (dp - len)) CHR ''0'' @ ''.0''
                 else take (nat dp) ds @ CHR ''.'' # drop (nat dp) ds)))"

subsection \<open>Text forms of values\<close>

text \<open>
  \<^verbatim>\<open>repr\<close> of a string: single quotes, unless the string has a single quote and no
  double quote; the quote and the backslash are escaped, tab, newline and carriage
  return are written \<^verbatim>\<open>\t\<close>, \<^verbatim>\<open>\n\<close>, \<^verbatim>\<open>\r\<close>, and every other code point that is not printable
  is written \<^verbatim>\<open>\xhh\<close>.
\<close>

definition hex_digit :: "nat \<Rightarrow> char" where
  "hex_digit d = (if d < 10 then char_of (48 + d) else char_of (87 + d))"

definition printable :: "char \<Rightarrow> bool" where
  "printable c = (let n = (of_char c :: nat) in
     (32 \<le> n \<and> n < 127) \<or> (161 \<le> n \<and> n \<noteq> 173))"

definition repr_char :: "char \<Rightarrow> char \<Rightarrow> string" where
  "repr_char q c =
     (if c = q \<or> c = CHR 0x5C then [CHR 0x5C, c]
      else if c = CHR 0x09 then [CHR 0x5C, CHR ''t'']
      else if c = CHR 0x0A then [CHR 0x5C, CHR ''n'']
      else if c = CHR 0x0D then [CHR 0x5C, CHR ''r'']
      else if printable c then [c]
      else [CHR 0x5C, CHR ''x'', hex_digit (of_char c div 16), hex_digit (of_char c mod 16)])"

definition repr_str :: "string \<Rightarrow> string" where
  "repr_str s =
     (let q = (if CHR 0x27 \<in> set s \<and> CHR 0x22 \<notin> set s then CHR 0x22 else CHR 0x27)
      in [q] @ concat (map (repr_char q) s) @ [q])"

text \<open>\<^verbatim>\<open>repr(x)\<close> and \<^verbatim>\<open>str(x)\<close>: they differ on strings only.\<close>

fun py_repr :: "json \<Rightarrow> string" where
  "py_repr JNull = ''None''"
| "py_repr (JBool b) = (if b then ''True'' else ''False'')"
| "py_repr (JInt i) = str_int i"
| "py_repr (JFloat f) = float_repr f"
| "py_repr (JStr s) = repr_str s"
| "py_repr (JList xs) = ''['' @ join '', '' (map py_repr xs) @ '']''"
| "py_repr (JObj kvs) =
     ''{'' @ join '', '' (map (\<lambda>kv. repr_str (fst kv) @ '': '' @ py_repr (snd kv)) kvs) @ ''}''"

fun py_str :: "json \<Rightarrow> string" where
  "py_str (JStr s) = s"
| "py_str v = py_repr v"

subsection \<open>Library: \<^verbatim>\<open>json.dumps\<close>\<close>

text \<open>
  \<^verbatim>\<open>json.dumps(value)\<close> with its default options: items are separated by a comma and a
  space, keys from values by a colon and a space, and every character outside the
  printable ASCII range is escaped (\<^verbatim>\<open>ensure_ascii\<close>). A float that is not finite is
  written \<^verbatim>\<open>NaN\<close>, \<^verbatim>\<open>Infinity\<close> or \<^verbatim>\<open>-Infinity\<close> (\<^verbatim>\<open>allow_nan\<close>), and any other float as
  \<^verbatim>\<open>repr\<close> writes it.
\<close>

definition hex4 :: "nat \<Rightarrow> string" where
  "hex4 n = [hex_digit (n div 4096 mod 16), hex_digit (n div 256 mod 16),
             hex_digit (n div 16 mod 16), hex_digit (n mod 16)]"

definition json_escape_char :: "char \<Rightarrow> string" where
  "json_escape_char c =
     (if c = CHR 0x22 then [CHR 0x5C, CHR 0x22]
      else if c = CHR 0x5C then [CHR 0x5C, CHR 0x5C]
      else if c = CHR 0x0A then [CHR 0x5C, CHR ''n'']
      else if c = CHR 0x0D then [CHR 0x5C, CHR ''r'']
      else if c = CHR 0x09 then [CHR 0x5C, CHR ''t'']
      else if c = CHR 0x08 then [CHR 0x5C, CHR ''b'']
      else if c = CHR 0x0C then [CHR 0x5C, CHR ''f'']
      else if 32 \<le> (of_char c :: nat) \<and> (of_char c :: nat) < 127 then [c]
      else [CHR 0x5C, CHR ''u''] @ hex4 (of_char c))"

definition json_string :: "string \<Rightarrow> string" where
  "json_string s = [CHR 0x22] @ concat (map json_escape_char s) @ [CHR 0x22]"

fun json_dumps :: "json \<Rightarrow> string" where
  "json_dumps JNull = ''null''"
| "json_dumps (JBool b) = (if b then ''true'' else ''false'')"
| "json_dumps (JInt i) = str_int i"
| "json_dumps (JFloat f) =
     (case f of
        NaN \<Rightarrow> ''NaN''
      | Infinity neg \<Rightarrow> (if neg then ''-Infinity'' else ''Infinity'')
      | Finite neg m e \<Rightarrow> float_repr f)"
| "json_dumps (JStr s) = json_string s"
| "json_dumps (JList xs) = ''['' @ join '', '' (map json_dumps xs) @ '']''"
| "json_dumps (JObj kvs) =
     ''{'' @ join '', '' (map (\<lambda>kv. json_string (fst kv) @ '': '' @ json_dumps (snd kv)) kvs) @ ''}''"

subsection \<open>Library: \<^verbatim>\<open>datetime.fromisoformat\<close> and \<^verbatim>\<open>strftime\<close>\<close>

text \<open>
  A \<^verbatim>\<open>datetime\<close> value. The UTC offset is absent for a naive value and counted in
  microseconds otherwise.
\<close>

record datetime =
  year :: int
  month :: int
  day :: int
  hour :: int
  minute :: int
  second :: int
  microsecond :: int
  utcoffset :: "int option"

definition is_digit :: "char \<Rightarrow> bool" where
  "is_digit c = (48 \<le> (of_char c :: nat) \<and> (of_char c :: nat) \<le> 57)"

definition digit_val :: "char \<Rightarrow> int" where
  "digit_val c = int (of_char c) - 48"

text \<open>The number written by the \<open>n\<close> digits that start at position \<open>i\<close>.\<close>

definition digits_at :: "string \<Rightarrow> nat \<Rightarrow> nat \<Rightarrow> int option" where
  "digits_at s i n =
     (let t = take n (drop i s)
      in if length t = n \<and> 0 < n \<and> list_all is_digit t
         then Some (foldl (\<lambda>a c. 10 * a + digit_val c) 0 t) else None)"

definition char_at :: "string \<Rightarrow> nat \<Rightarrow> char \<Rightarrow> bool" where
  "char_at s i c = (i < length s \<and> s ! i = c)"

text \<open>\<^verbatim>\<open>YYYY-MM-DD\<close>.\<close>

definition parse_isoformat_date :: "string \<Rightarrow> (int \<times> int \<times> int) option" where
  "parse_isoformat_date s =
     (if char_at s 4 CHR ''-'' \<and> char_at s 7 CHR ''-'' then
        do { y \<leftarrow> digits_at s 0 4; m \<leftarrow> digits_at s 5 2; d \<leftarrow> digits_at s 8 2; Some (y, m, d) }
      else None)"

text \<open>\<^verbatim>\<open>HH[:MM[:SS[.fff[fff]]]]\<close>: hours, minutes, seconds, microseconds.\<close>

definition parse_hh_mm_ss_ff :: "string \<Rightarrow> (int \<times> int \<times> int \<times> int) option" where
  "parse_hh_mm_ss_ff t =
     (let n = length t in
      if n \<notin> {2, 5, 8, 12, 15} then None
      else do {
        h \<leftarrow> digits_at t 0 2;
        m \<leftarrow> (if n < 5 then Some 0 else if char_at t 2 CHR '':'' then digits_at t 3 2 else None);
        s \<leftarrow> (if n < 8 then Some 0 else if char_at t 5 CHR '':'' then digits_at t 6 2 else None);
        f \<leftarrow> (if n < 12 then Some 0
              else if char_at t 8 CHR ''.'' then
                (if n = 12 then map_option (\<lambda>x. x * 1000) (digits_at t 9 3) else digits_at t 9 6)
              else None);
        Some (h, m, s, f)
      })"

text \<open>
  The UTC offset \<^verbatim>\<open>+HH:MM[:SS[.ffffff]]\<close> with its sign, in microseconds. An offset
  of a day or more is refused.
\<close>

definition parse_tz :: "string \<Rightarrow> int option" where
  "parse_tz z =
     (case z of
        [] \<Rightarrow> None
      | c # rest \<Rightarrow>
          if length rest \<notin> {5, 8, 15} then None
          else do {
            (h, m, s, f) \<leftarrow> parse_hh_mm_ss_ff rest;
            let off = ((h * 60 + m) * 60 + s) * 1000000 + f;
            if off < 86400000000 then Some (if c = CHR ''-'' then - off else off) else None
          })"

definition is_leap :: "int \<Rightarrow> bool" where
  "is_leap y = (y mod 4 = 0 \<and> (y mod 100 \<noteq> 0 \<or> y mod 400 = 0))"

definition days_in_month :: "int \<Rightarrow> int \<Rightarrow> int" where
  "days_in_month y m =
     (if m = 2 then (if is_leap y then 29 else 28)
      else if m \<in> {4, 6, 9, 11} then 30 else 31)"

text \<open>
  \<^verbatim>\<open>datetime.fromisoformat(s)\<close> for the documented format
  \<^verbatim>\<open>YYYY-MM-DD[*HH[:MM[:SS[.fff[fff]]]][+HH:MM[:SS[.ffffff]]]]\<close>: the date, any one
  separator character, the time, and the offset from the first sign in the time part
  on. The result is \<open>None\<close> where the library raises \<^verbatim>\<open>ValueError\<close>. (From Python 3.11
  on the library reads more forms of ISO 8601 than this one; on the documented format
  the result is the same.)
\<close>

definition fromisoformat :: "string \<Rightarrow> datetime option" where
  "fromisoformat s =
     do {
       (y, mo, d) \<leftarrow> parse_isoformat_date (take 10 s);
       let tstr = drop 11 s;
       let tpart = takeWhile (\<lambda>c. c \<noteq> CHR ''+'' \<and> c \<noteq> CHR ''-'') tstr;
       let zpart = dropWhile (\<lambda>c. c \<noteq> CHR ''+'' \<and> c \<noteq> CHR ''-'') tstr;
       (h, mi, sec, f) \<leftarrow> (if length s \<le> 10 then Some (0, 0, 0, 0) else parse_hh_mm_ss_ff tpart);
       tz \<leftarrow> (if zpart = [] then Some None else map_option Some (parse_tz zpart));
       if 1 \<le> y \<and> 1 \<le> mo \<and> mo \<le> 12 \<and> 1 \<le> d \<and> d \<le> days_in_month y mo
          \<and> h < 24 \<and> mi < 60 \<and> sec < 60
       then Some \<lparr>year = y, month = mo, day = d, hour = h, minute = mi, second = sec,
                  microsecond = f, utcoffset = tz\<rparr>
       else None
     }"

definition pad2 :: "int \<Rightarrow> string" where
  "pad2 n = (if n < 10 then CHR ''0'' # digits_of n else digits_of n)"

definition pad6 :: "int \<Rightarrow> string" where
  "pad6 n = replicate (6 - length (digits_of n)) CHR ''0'' @ digits_of n"

definition month_name :: "int \<Rightarrow> string" where
  "month_name m =
     [''January'', ''February'', ''March'', ''April'', ''May'', ''June'', ''July'',
      ''August'', ''September'', ''October'', ''November'', ''December''] ! nat (m - 1)"

text \<open>
  \<^verbatim>\<open>%Z\<close>: the name of a fixed-offset time zone, empty for a naive value, \<^verbatim>\<open>UTC\<close> for
  the offset zero.
\<close>

definition tzname :: "int option \<Rightarrow> string" where
  "tzname tz =
     (case tz of
        None \<Rightarrow> []
      | Some off \<Rightarrow>
          if off = 0 then ''UTC''
          else
            (let a = \<bar>off\<bar>;
                 hh = a div 3600000000;
                 mm = a div 60000000 mod 60;
                 ss = a div 1000000 mod 60;
                 us = a mod 1000000
             in ''UTC'' @ (if off < 0 then ''-'' else ''+'') @ pad2 hh @ '':'' @ pad2 mm
                @ (if us \<noteq> 0 then '':'' @ pad2 ss @ ''.'' @ pad6 us
                   else if ss \<noteq> 0 then '':'' @ pad2 ss else [])))"

text \<open>
  \<^verbatim>\<open>dt.strftime("%B %d, %Y, %I:%M:%S %p %Z")\<close> in the C locale. The year is written
  without padding, as the C library of Linux does.
\<close>

definition strftime :: "datetime \<Rightarrow> string" where
  "strftime dt =
     month_name (month dt) @ '' '' @ pad2 (day dt) @ '', '' @ digits_of (year dt) @ '', ''
     @ pad2 (if hour dt mod 12 = 0 then 12 else hour dt mod 12) @ '':'' @ pad2 (minute dt)
     @ '':'' @ pad2 (second dt) @ '' '' @ (if hour dt < 12 then ''AM'' else ''PM'')
     @ '' '' @ tzname (utcoffset dt)"

section \<open>The field extractor\<close>

text \<open>\<^verbatim>\<open>s.replace("Z", "+00:00")\<close>: every \<^verbatim>\<open>Z\<close> of the string is replaced.\<close>

definition replace_Z :: "string \<Rightarrow> string" where
  "replace_Z s = concat (map (\<lambda>c. if c = CHR ''Z'' then ''+00:00'' else [c]) s)"

text \<open>
  \<^verbatim>\<open>format_last_modified\<close>. A value that is not a string has no \<^verbatim>\<open>replace\<close> method; the
  \<^verbatim>\<open>AttributeError\<close> is raised inside the \<^verbatim>\<open>try\<close> block and the value itself is returned,
  as for a string that does not parse.
\<close>

definition format_last_modified :: "json \<Rightarrow> json" where
  "format_last_modified last_modified =
     (if \<not> truthy last_modified then JNull
      else case last_modified of
             JStr s \<Rightarrow> (case fromisoformat (replace_Z s) of
                          Some dt \<Rightarrow> JStr (strftime dt)
                        | None \<Rightarrow> last_modified)
           | _ \<Rightarrow> last_modified)"

text \<open>
  The loop of \<^verbatim>\<open>extract_habitat_descriptions\<close> over the items of the list, with the list
  \<^verbatim>\<open>descriptions\<close> it appends to.
\<close>

fun habitat_loop :: "json list \<Rightarrow> string \<Rightarrow> string \<Rightarrow> string list \<Rightarrow> string list" where
  "habitat_loop [] habitat_key desc_key descriptions = descriptions"
| "habitat_loop (item # rest) habitat_key desc_key descriptions =
     (case item of
        JObj kvs \<Rightarrow>
          (case dict_get kvs habitat_key JNull of
             JObj habitat_obj \<Rightarrow>
               (let desc = dict_get habitat_obj desc_key JNull
                in if truthy desc
                   then habitat_loop rest habitat_key desc_key (descriptions @ [py_str desc])
                   else habitat_loop rest habitat_key desc_key descriptions)
           | _ \<Rightarrow> habitat_loop rest habitat_key desc_key descriptions)
      | _ \<Rightarrow> habitat_loop rest habitat_key desc_key descriptions)"

definition extract_habitat_descriptions :: "json \<Rightarrow> string \<Rightarrow> string \<Rightarrow> json" where
  "extract_habitat_descriptions habitat_list habitat_key desc_key =
     (if \<not> truthy habitat_list \<or> \<not> is_list habitat_list then JNull
      else case habitat_list of
             JList items \<Rightarrow>
               (let descriptions = habitat_loop items habitat_key desc_key []
                in if descriptions \<noteq> [] then JStr (join '', '' descriptions) else JNull)
           | _ \<Rightarrow> JNull)"

text \<open>Sequencing of steps that can raise: the first exception ends the function.\<close>

definition bind_err :: "py_error + 'a \<Rightarrow> ('a \<Rightarrow> py_error + 'b) \<Rightarrow> py_error + 'b" where
  "bind_err r f = (case r of Inl e \<Rightarrow> Inl e | Inr x \<Rightarrow> f x)"

text \<open>The idiom \<^verbatim>\<open>x.get(key, {}) or {}\<close> of lines 78 to 81.\<close>

definition get_or_empty :: "json \<Rightarrow> string \<Rightarrow> py_error + json" where
  "get_or_empty x k =
     bind_err (py_get x k (JObj [])) (\<lambda>v. Inr (if truthy v then v else JObj []))"

definition habitat_types :: "(string \<times> string \<times> string \<times> string) list" where
  "habitat_types =
     [(''speciesMarineHabitats'', ''marineHabitat'', ''marineHabitatDescEn'', ''marineHabitats''),
      (''speciesTerrestrialHabitats'', ''terrestrialHabitat'', ''terrestrialHabitatDescEn'',
       ''terrestrialHabitats''),
      (''speciesRiverineHabitats'', ''riverineHabitat'', ''riverineHabitatDescEn'',
       ''riverineHabitats''),
      (''speciesPalustrineHabitats'', ''palustrineHabitat'', ''palustrineHabitatDescEn'',
       ''palustrineHabitats''),
      (''speciesLacustrineHabitats'', ''lacustrineHabitat'', ''lacustrineHabitatDescEn'',
       ''lacustrineHabitats''),
      (''speciesSubterraneanHabitats'', ''subterraneanHabitat'', ''subterraneanHabitatDescEn'',
       ''subterraneanHabitats''),
      (''speciesEstuarineHabitats'', ''estuarineHabitat'', ''estuarineHabitatDescEn'',
       ''estuarineHabitats'')]"

text \<open>The loop of \<^verbatim>\<open>extract_data\<close> over \<^verbatim>\<open>habitat_types\<close> (lines 142 to 145).\<close>

fun habitat_fields ::
  "(string \<times> string \<times> string \<times> string) list \<Rightarrow> json \<Rightarrow> (string \<times> json) list
     \<Rightarrow> py_error + (string \<times> json) list" where
  "habitat_fields [] species_chars extracted = Inr extracted"
| "habitat_fields ((api_key, habitat_key, desc_key, output_key) # rest) species_chars extracted =
     bind_err (py_get species_chars api_key JNull) (\<lambda>habitat_data.
       habitat_fields rest species_chars
         (dict_set extracted output_key
            (extract_habitat_descriptions habitat_data habitat_key desc_key)))"

text \<open>
  \<^verbatim>\<open>extract_data\<close>, statement by statement. The entries of the dictionary display are
  evaluated in the order they are written.
\<close>

definition extract_data :: "json \<Rightarrow> py_error + (string \<times> json) list" where
  "extract_data full_data =
     bind_err (get_or_empty full_data ''speciesCharacteristics'') (\<lambda>species_chars.
     bind_err (get_or_empty full_data ''speciesGlobal'') (\<lambda>species_global.
     bind_err (get_or_empty full_data ''rankInfo'') (\<lambda>rank_info.
     bind_err (get_or_empty rank_info ''rangeExtent'') (\<lambda>range_extent.
     bind_err (py_get full_data ''lastModified'' JNull) (\<lambda>last_modified.
     let last_modified_readable = format_last_modified last_modified in
     bind_err (py_get full_data ''elementGlobalId'' JNull) (\<lambda>v1.
     bind_err (py_get full_data ''uniqueId'' JNull) (\<lambda>v2.
     bind_err (py_get species_global ''elementGlobalId'' JNull) (\<lambda>v3.
     bind_err (py_get full_data ''primaryCommonName'' JNull) (\<lambda>v4.
     bind_err (py_get full_data ''scientificName'' JNull) (\<lambda>v5.
     bind_err (py_get full_data ''grankReasons'' JNull) (\<lambda>v7.
     bind_err (py_get species_chars ''habitatComments'' JNull) (\<lambda>v8.
     bind_err (py_get range_extent ''rangeExtentDescEn'' JNull) (\<lambda>v9.
     habitat_fields habitat_types species_chars
       [(''elementGlobalId'', v1),
        (''uniqueId'', v2),
        (''speciesGlobalElementGlobalId'', v3),
        (''primaryCommonName'', v4),
        (''scientificName'', v5),
        (''lastModified'', last_modified_readable),
        (''grankReasons'', v7),
        (''habitatComments'', v8),
        (''rangeExtent'', v9)])))))))))))))"

section \<open>The fetcher\<close>

definition format_csv_value :: "json \<Rightarrow> string" where
  "format_csv_value v =
     (if v = JNull then []
      else if is_dict v \<or> is_list v then json_dumps v
      else py_str v)"

definition API_HOST :: string where
  "API_HOST = ''https://explorer.natureserve.org''"

definition API_PATH :: string where
  "API_PATH = ''/api/data/taxon/''"

text \<open>
  What one request meets. The HTTP client and the JSON decoder are library code:
  \<^item> \<open>Response status reason body\<close>: \<^verbatim>\<open>urlopen\<close> returns a response; \<open>body\<close> is what
    \<^verbatim>\<open>json.loads(response.read().decode("utf-8"))\<close> gives, the decoded value, or the
    text \<^verbatim>\<open>str(error)\<close> of the exception that reading, decoding or parsing raises;
  \<^item> \<open>HTTPError code reason\<close>: \<^verbatim>\<open>urlopen\<close> raises \<^verbatim>\<open>urllib.error.HTTPError\<close>;
  \<^item> \<open>OtherError msg\<close>: \<^verbatim>\<open>urlopen\<close> raises any other exception, with \<^verbatim>\<open>str(error)\<close>.
\<close>

datatype http_reply =
    Response int string "string + json"
  | HTTPError int string
  | OtherError string

text \<open>
  The dictionary that \<^verbatim>\<open>fetch_taxon_data\<close> returns: the key \<^verbatim>\<open>url\<close>, the key \<^verbatim>\<open>error\<close>
  (absent on success) and the key \<^verbatim>\<open>data\<close> (\<^verbatim>\<open>None\<close> on failure).
\<close>

record fetch_result =
  url :: string
  error :: "string option"
  data :: "(string \<times> json) list option"

text \<open>
  \<^verbatim>\<open>fetch_taxon_data\<close>. The progress lines it prints are left out, and with them the
  index \<open>i\<close> has no other use.
\<close>

definition fetch_taxon_data :: "string \<Rightarrow> nat \<Rightarrow> http_reply \<Rightarrow> fetch_result" where
  "fetch_taxon_data route i reply =
     (let u = API_HOST @ API_PATH @ route in
      case reply of
        Response status reason body \<Rightarrow>
          if status \<noteq> 200
          then \<lparr>url = u, error = Some (str_int status @ '' '' @ reason), data = None\<rparr>
          else (case body of
                  Inl msg \<Rightarrow> \<lparr>url = u, error = Some msg, data = None\<rparr>
                | Inr full_data \<Rightarrow>
                    (case extract_data full_data of
                       Inl e \<Rightarrow> \<lparr>url = u, error = Some (error_str e), data = None\<rparr>
                     | Inr extracted_data \<Rightarrow> \<lparr>url = u, error = None, data = Some extracted_data\<rparr>))
      | HTTPError code reason \<Rightarrow>
          \<lparr>url = u, error = Some (str_int code @ '' '' @ reason), data = None\<rparr>
      | OtherError msg \<Rightarrow> \<lparr>url = u, error = Some msg, data = None\<rparr>)"

section \<open>The run driver\<close>

definition headers :: "string list" where
  "headers =
     [''url'', ''elementGlobalId'', ''uniqueId'', ''speciesGlobalElementGlobalId'',
      ''primaryCommonName'', ''scientificName'', ''lastModified'', ''grankReasons'',
      ''habitatComments'', ''rangeExtent'', ''marineHabitats'', ''terrestrialHabitats'',
      ''riverineHabitats'', ''palustrineHabitats'', ''lacustrineHabitats'',
      ''subterraneanHabitats'', ''estuarineHabitats'']"

text \<open>
  The \<^verbatim>\<open>else\<close> branch of the loop body (lines 235 to 254): \<^verbatim>\<open>data = result["data"]\<close> and
  the row of its fields. When \<^verbatim>\<open>data\<close> is \<^verbatim>\<open>None\<close>, \<^verbatim>\<open>data.get\<close> raises.
\<close>

definition data_row :: "fetch_result \<Rightarrow> py_error + string list" where
  "data_row result =
     (case data result of
        None \<Rightarrow> Inl (AttributeError (type_name JNull))
      | Some d \<Rightarrow>
          Inr [url result,
               format_csv_value (dict_get d ''elementGlobalId'' JNull),
               format_csv_value (dict_get d ''uniqueId'' JNull),
               format_csv_value (dict_get d ''speciesGlobalElementGlobalId'' JNull),
               format_csv_value (dict_get d ''primaryCommonName'' JNull),
               format_csv_value (dict_get d ''scientificName'' JNull),
               format_csv_value (dict_get d ''lastModified'' JNull),
               format_csv_value (dict_get d ''grankReasons'' JNull),
               format_csv_value (dict_get d ''habitatComments'' JNull),
               format_csv_value (dict_get d ''rangeExtent'' JNull),
               format_csv_value (dict_get d ''marineHabitats'' JNull),
               format_csv_value (dict_get d ''terrestrialHabitats'' JNull),
               format_csv_value (dict_get d ''riverineHabitats'' JNull),
               format_csv_value (dict_get d ''palustrineHabitats'' JNull),
               format_csv_value (dict_get d ''lacustrineHabitats'' JNull),
               format_csv_value (dict_get d ''subterraneanHabitats'' JNull),
               format_csv_value (dict_get d ''estuarineHabitats'' JNull)])"

text \<open>
  The row of one result (lines 231 to 255). \<^verbatim>\<open>if result.get("error")\<close> tests the
  message for truth: a missing key and an empty message both take the \<^verbatim>\<open>else\<close> branch.
\<close>

definition result_row :: "fetch_result \<Rightarrow> py_error + string list" where
  "result_row result =
     (case error result of
        Some msg \<Rightarrow>
          if msg \<noteq> [] then Inr ([url result, msg] @ replicate (length headers - 2) [])
          else data_row result
      | None \<Rightarrow> data_row result)"

text \<open>
  The state of a run: the rows written to the file so far, each flushed as it is
  written, and the counter \<^verbatim>\<open>rows_written\<close>.
\<close>

record run_state =
  csv_rows :: "string list list"
  rows_written :: nat

text \<open>
  The loop over \<^verbatim>\<open>CURRENT_SET\<close>. \<open>net i u\<close> is what the request number \<open>i\<close>, for the
  address \<open>u\<close>, meets. An exception ends the loop and leaves the rows written so far;
  the pause between two requests is left out.
\<close>

fun write_loop ::
  "(nat \<Rightarrow> string \<Rightarrow> http_reply) \<Rightarrow> nat \<Rightarrow> string list \<Rightarrow> run_state
     \<Rightarrow> (py_error \<times> run_state) + run_state" where
  "write_loop net i [] st = Inr st"
| "write_loop net i (route # rest) st =
     (let result = fetch_taxon_data route i (net i (API_HOST @ API_PATH @ route)) in
      case result_row result of
        Inl e \<Rightarrow> Inl (e, st)
      | Inr row \<Rightarrow>
          write_loop net (Suc i) rest
            \<lparr>csv_rows = csv_rows st @ [row], rows_written = rows_written st + 1\<rparr>)"

text \<open>
  \<^verbatim>\<open>fetch_data\<close> on the list \<^verbatim>\<open>CURRENT_SET\<close>: the header row, then the loop. \<open>Inr\<close> is
  the normal completion, \<open>Inl\<close> the exception that is raised again, with the file as it
  was left.
\<close>

definition fetch_data ::
  "(nat \<Rightarrow> string \<Rightarrow> http_reply) \<Rightarrow> string list \<Rightarrow> (py_error \<times> run_state) + run_state" where
  "fetch_data net CURRENT_SET =
     write_loop net 0 CURRENT_SET \<lparr>csv_rows = [headers], rows_written = 0\<rparr>"

section \<open>Library: \<^verbatim>\<open>json.loads\<close>\<close>

text \<open>The four characters that the decoder skips as white space.\<close>

definition is_ws :: "char \<Rightarrow> bool" where
  "is_ws c = (c \<in> set [CHR '' '', CHR 0x09, CHR 0x0A, CHR 0x0D])"

definition skip_ws :: "string \<Rightarrow> string" where
  "skip_ws s = dropWhile is_ws s"

text \<open>The value of a hexadecimal digit, in either case.\<close>

definition hex_val :: "char \<Rightarrow> nat option" where
  "hex_val c =
     (let n = (of_char c :: nat) in
      if 48 \<le> n \<and> n \<le> 57 then Some (n - 48)
      else if 97 \<le> n \<and> n \<le> 102 then Some (n - 87)
      else if 65 \<le> n \<and> n \<le> 70 then Some (n - 55)
      else None)"

text \<open>The code point written by the four hexadecimal digits of a \<^verbatim>\<open>\u\<close> escape.\<close>

definition parse_hex4 :: "string \<Rightarrow> nat option" where
  "parse_hex4 s =
     (case map hex_val (take 4 s) of
        [Some a, Some b, Some c, Some d] \<Rightarrow> Some (((a * 16 + b) * 16 + c) * 16 + d)
      | _ \<Rightarrow> None)"

text \<open>The character that a one-letter escape stands for.\<close>

definition unescape :: "char \<Rightarrow> char option" where
  "unescape e =
     (if e = CHR 0x22 then Some (CHR 0x22)
      else if e = CHR 0x5C then Some (CHR 0x5C)
      else if e = CHR ''/'' then Some CHR ''/''
      else if e = CHR ''b'' then Some (CHR 0x08)
      else if e = CHR ''f'' then Some (CHR 0x0C)
      else if e = CHR ''n'' then Some (CHR 0x0A)
      else if e = CHR ''r'' then Some (CHR 0x0D)
      else if e = CHR ''t'' then Some (CHR 0x09)
      else None)"

text \<open>
  The text of a string after its opening quote, up to the closing quote, and the rest
  of the input. A control character is refused, as the decoder does in its strict
  mode. A \<^verbatim>\<open>\u\<close> escape of a code point from 256 on has no \<^typ>\<open>char\<close> and gives no result.
\<close>

fun scanstring :: "string \<Rightarrow> (string \<times> string) option" where
  "scanstring [] = None"
| "scanstring (c # cs) =
     (if c = CHR 0x22 then Some ([], cs)
      else if c = CHR 0x5C then
        (case cs of
           [] \<Rightarrow> None
         | e # cs' \<Rightarrow>
             if e = CHR ''u'' then
               (case parse_hex4 cs' of
                  None \<Rightarrow> None
                | Some n \<Rightarrow>
                    if n < 256 then
                      map_option (\<lambda>(str, rest). (char_of n # str, rest)) (scanstring (drop 4 cs'))
                    else None)
             else
               (case unescape e of
                  None \<Rightarrow> None
                | Some ch \<Rightarrow> map_option (\<lambda>(str, rest). (ch # str, rest)) (scanstring cs')))
      else if (of_char c :: nat) < 32 then None
      else map_option (\<lambda>(str, rest). (c # str, rest)) (scanstring cs))"

text \<open>
  The integer part of a number: a single \<^verbatim>\<open>0\<close>, or the digits from a first digit that is
  not zero.
\<close>

definition int_digits :: "string \<Rightarrow> string" where
  "int_digits t = (if t \<noteq> [] \<and> hd t = CHR ''0'' then ''0'' else takeWhile is_digit t)"

text \<open>The number that a string of digits writes, continued from \<open>n\<close>.\<close>

definition decimal :: "int \<Rightarrow> string \<Rightarrow> int" where
  "decimal n ds = foldl (\<lambda>a c. 10 * a + digit_val c) n ds"

text \<open>The integer part of a number without its sign, and the rest of the text.\<close>

definition parse_unsigned :: "string \<Rightarrow> (int \<times> string) option" where
  "parse_unsigned t =
     (let ds = int_digits t
      in if ds = [] then None else Some (decimal 0 ds, drop (length ds) t))"

text \<open>
  The digits of a fraction: those after a point, one at least. The exponent: after
  \<^verbatim>\<open>e\<close> or \<^verbatim>\<open>E\<close> and a sign or none, digits, one at least; its value and its length.
\<close>

definition frac_digits :: "string \<Rightarrow> string" where
  "frac_digits r = (if r \<noteq> [] \<and> hd r = CHR ''.'' then takeWhile is_digit (tl r) else [])"

definition exponent :: "string \<Rightarrow> (int \<times> nat) option" where
  "exponent r =
     (if r \<noteq> [] \<and> hd r \<in> set ''eE'' then
        (let t = tl r;
             signed = (t \<noteq> [] \<and> hd t \<in> set ''+-'');
             ds = takeWhile is_digit (if signed then tl t else t)
         in if ds = [] then None
            else Some (if signed \<and> hd t = CHR ''-'' then - decimal 0 ds else decimal 0 ds,
                       (if signed then 2 else 1) + length ds))
      else None)"

text \<open>
  A number: a sign or none, the integer part, and a fraction and an exponent if they
  are there. With neither it is an integer, otherwise the float that \<^verbatim>\<open>float\<close> reads
  from the text.
\<close>

definition parse_number :: "string \<Rightarrow> (json \<times> string) option" where
  "parse_number s =
     (let neg = (s \<noteq> [] \<and> hd s = CHR ''-'')
      in case parse_unsigned (if neg then tl s else s) of
           None \<Rightarrow> None
         | Some (n, r) \<Rightarrow>
             (let fs = frac_digits r;
                  r1 = (if fs = [] then r else drop (Suc (length fs)) r);
                  ex = exponent r1
              in if fs = [] \<and> ex = None then Some (JInt (if neg then - n else n), r)
                 else
                   Some (JFloat
                           (float_of_decimal neg (decimal n fs)
                              ((case ex of None \<Rightarrow> 0 | Some (x, l) \<Rightarrow> x) - int (length fs))),
                         (case ex of None \<Rightarrow> r1 | Some (x, l) \<Rightarrow> drop l r1))))"

text \<open>
  The three names that the decoder reads beside the grammar of JSON, where no number
  starts.
\<close>

definition parse_constant :: "string \<Rightarrow> (json \<times> string) option" where
  "parse_constant s =
     (if take 3 s = ''NaN'' then Some (JFloat NaN, drop 3 s)
      else if take 8 s = ''Infinity'' then Some (JFloat (Infinity False), drop 8 s)
      else if take 9 s = ''-Infinity'' then Some (JFloat (Infinity True), drop 9 s)
      else None)"

text \<open>
  The decoder, with the depth of the recursion and the number of items it may still
  read bounded by \<open>n\<close>: a value, the items of a list after its opening bracket, and the
  members of an object. A key that comes again replaces the value of its first entry.
  With \<open>py\<close> the decoder is that of the library; without, it reads the grammar of JSON
  (RFC 8259) and nothing else.
\<close>

fun parse_value :: "bool \<Rightarrow> nat \<Rightarrow> string \<Rightarrow> (json \<times> string) option"
and parse_elements :: "bool \<Rightarrow> nat \<Rightarrow> string \<Rightarrow> json list \<Rightarrow> (json \<times> string) option"
and parse_members :: "bool \<Rightarrow> nat \<Rightarrow> string \<Rightarrow> (string \<times> json) list \<Rightarrow> (json \<times> string) option"
where
  "parse_value py 0 s = None"
| "parse_value py (Suc n) s =
     (if s = [] then None
      else if hd s = CHR 0x22 then
        map_option (\<lambda>(str, rest). (JStr str, rest)) (scanstring (tl s))
      else if hd s = CHR ''{'' then
        (let t = skip_ws (tl s)
         in if t \<noteq> [] \<and> hd t = CHR ''}'' then Some (JObj [], tl t)
            else parse_members py n t [])
      else if hd s = CHR ''['' then
        (let t = skip_ws (tl s)
         in if t \<noteq> [] \<and> hd t = CHR '']'' then Some (JList [], tl t)
            else parse_elements py n t [])
      else if take 4 s = ''null'' then Some (JNull, drop 4 s)
      else if take 4 s = ''true'' then Some (JBool True, drop 4 s)
      else if take 5 s = ''false'' then Some (JBool False, drop 5 s)
      else case parse_number s of
             Some r \<Rightarrow> Some r
           | None \<Rightarrow> if py then parse_constant s else None)"
| "parse_elements py 0 s acc = None"
| "parse_elements py (Suc n) s acc =
     (case parse_value py n s of
        None \<Rightarrow> None
      | Some (v, rest) \<Rightarrow>
          (let t = skip_ws rest
           in if t \<noteq> [] \<and> hd t = CHR '']'' then Some (JList (acc @ [v]), tl t)
              else if t \<noteq> [] \<and> hd t = CHR '','' then parse_elements py n (skip_ws (tl t)) (acc @ [v])
              else None))"
| "parse_members py 0 s acc = None"
| "parse_members py (Suc n) s acc =
     (if s = [] \<or> hd s \<noteq> CHR 0x22 then None
      else case scanstring (tl s) of
        None \<Rightarrow> None
      | Some (k, rest) \<Rightarrow>
          (let t = skip_ws rest
           in if t = [] \<or> hd t \<noteq> CHR '':'' then None
              else case parse_value py n (skip_ws (tl t)) of
                None \<Rightarrow> None
              | Some (v, rest') \<Rightarrow>
                  (let t' = skip_ws rest'
                   in if t' \<noteq> [] \<and> hd t' = CHR ''}'' then Some (JObj (dict_set acc k v), tl t')
                      else if t' \<noteq> [] \<and> hd t' = CHR '','' then
                        parse_members py n (skip_ws (tl t')) (dict_set acc k v)
                      else None)))"

text \<open>
  \<^verbatim>\<open>json.loads(s)\<close>: one value with white space around it and nothing after it. The
  bound is the length of the text, which no text exhausts that is the text of a value.
  \<open>None\<close> stands for the exception the decoder raises.
\<close>

definition loads :: "bool \<Rightarrow> string \<Rightarrow> json option" where
  "loads py s =
     (case parse_value py (Suc (length s)) (skip_ws s) of
        None \<Rightarrow> None
      | Some (v, rest) \<Rightarrow> if skip_ws rest = [] then Some v else None)"

definition json_loads :: "string \<Rightarrow> json option" where
  "json_loads s = loads True s"

text \<open>A text is valid JSON when the grammar of JSON reads it.\<close>

definition valid_json :: "string \<Rightarrow> bool" where
  "valid_json s = (loads False s \<noteq> None)"

text \<open>What can follow a value in the text that \<^verbatim>\<open>json.dumps\<close> writes.\<close>

definition ends_value :: "string \<Rightarrow> bool" where
  "ends_value rest = (rest = [] \<or> hd rest \<in> set '',]}'')"

text \<open>
  A Python dictionary has every key once. In a value of the model that holds for every
  dictionary inside it.
\<close>

fun keys_distinct :: "json \<Rightarrow> bool" where
  "keys_distinct (JList xs) = list_all keys_distinct xs"
| "keys_distinct (JObj kvs) =
     (distinct (map fst kvs) \<and> list_all (\<lambda>kv. keys_distinct (snd kv)) kvs)"
| "keys_distinct v = True"

text \<open>A value with no float in it: its numbers are integers.\<close>

fun no_floats :: "json \<Rightarrow> bool" where
  "no_floats (JFloat f) = False"
| "no_floats (JList xs) = list_all no_floats xs"
| "no_floats (JObj kvs) = list_all (\<lambda>kv. no_floats (snd kv)) kvs"
| "no_floats v = True"

text \<open>The characters a value written by \<^verbatim>\<open>json.dumps\<close> can start with.\<close>

definition value_start :: "char \<Rightarrow> bool" where
  "value_start c = (is_digit c \<or> c \<in> set [CHR ''n'', CHR ''t'', CHR ''f'', CHR ''-'', CHR 0x22, CHR ''['', CHR ''{''])"

section \<open>The extractor on a store of objects\<close>

text \<open>
  Lists and dictionaries are objects: a variable holds a reference, and a statement
  that changes an object is seen through every reference to it. To say what
  \<^verbatim>\<open>extract_data\<close> does to the record it is given, this section runs the same code on an
  explicit store. The record \<^verbatim>\<open>json.loads\<close> returns is a tree of such objects; a list
  that contains itself is not among them, and \<open>decode\<close> gives no JSON value for one.
\<close>

text \<open>
  A Python value as the interpreter holds it: \<^verbatim>\<open>None\<close>, a boolean, a number or a
  string, which cannot be changed, or a reference to a list or a dictionary in the
  store. Two references with the same address are the same object.
\<close>

datatype pval = PNone | PBool bool | PInt int | PFloat pyfloat | PStr string | PRef nat

text \<open>The objects that can be changed in place: lists and dictionaries.\<close>

datatype pobj = OList "pval list" | ODict "(string \<times> pval) list"

text \<open>
  The store: the object at the address \<open>a\<close> is the element number \<open>a\<close>. A new object is
  put at the end, at the address \<open>length h\<close>.
\<close>

type_synonym store = "pobj list"

text \<open>The object at an address, if there is one.\<close>

definition obj_at :: "store \<Rightarrow> nat \<Rightarrow> pobj option" where
  "obj_at h a = (if a < length h then Some (h ! a) else None)"

text \<open>The depth to which the interpreter lets \<^verbatim>\<open>str\<close> recurse.\<close>

definition recursion_limit :: nat where
  "recursion_limit = 1000"

text \<open>
  The JSON value that a value of the store stands for, read to the depth \<open>n\<close>. There
  is none when a reference is nested deeper, as in a cycle, or leads out of the store.
\<close>

fun decode :: "store \<Rightarrow> nat \<Rightarrow> pval \<Rightarrow> json option" where
  "decode h n PNone = Some JNull"
| "decode h n (PBool b) = Some (JBool b)"
| "decode h n (PInt i) = Some (JInt i)"
| "decode h n (PFloat f) = Some (JFloat f)"
| "decode h n (PStr s) = Some (JStr s)"
| "decode h 0 (PRef a) = None"
| "decode h (Suc n) (PRef a) =
     (case obj_at h a of
        None \<Rightarrow> None
      | Some (OList xs) \<Rightarrow> map_option JList (those (map (decode h n) xs))
      | Some (ODict kvs) \<Rightarrow>
          map_option JObj
            (those (map (\<lambda>kv. map_option (Pair (fst kv)) (decode h n (snd kv))) kvs)))"

text \<open>The value \<open>v\<close> of the store \<open>h\<close> stands for the JSON value \<open>j\<close>.\<close>

definition rep :: "store \<Rightarrow> pval \<Rightarrow> json \<Rightarrow> bool" where
  "rep h v j = (decode h recursion_limit v = Some j)"

text \<open>
  The operations of the first sections on the store: each reads the object a reference
  leads to, as the interpreter does.
\<close>

definition truthy_st :: "store \<Rightarrow> pval \<Rightarrow> bool" where
  "truthy_st h v =
     (case v of
        PNone \<Rightarrow> False
      | PBool b \<Rightarrow> b
      | PInt i \<Rightarrow> i \<noteq> 0
      | PFloat f \<Rightarrow> (case f of Finite s m e \<Rightarrow> m \<noteq> 0 | _ \<Rightarrow> True)
      | PStr s \<Rightarrow> s \<noteq> []
      | PRef a \<Rightarrow>
          (case obj_at h a of
             Some (OList xs) \<Rightarrow> xs \<noteq> []
           | Some (ODict kvs) \<Rightarrow> kvs \<noteq> []
           | None \<Rightarrow> False))"

definition is_dict_st :: "store \<Rightarrow> pval \<Rightarrow> bool" where
  "is_dict_st h v =
     (case v of
        PRef a \<Rightarrow> (case obj_at h a of Some (ODict kvs) \<Rightarrow> True | _ \<Rightarrow> False)
      | _ \<Rightarrow> False)"

definition is_list_st :: "store \<Rightarrow> pval \<Rightarrow> bool" where
  "is_list_st h v =
     (case v of
        PRef a \<Rightarrow> (case obj_at h a of Some (OList xs) \<Rightarrow> True | _ \<Rightarrow> False)
      | _ \<Rightarrow> False)"

definition type_name_st :: "store \<Rightarrow> pval \<Rightarrow> string" where
  "type_name_st h v =
     (case v of
        PNone \<Rightarrow> ''NoneType''
      | PBool b \<Rightarrow> ''bool''
      | PInt i \<Rightarrow> ''int''
      | PFloat f \<Rightarrow> ''float''
      | PStr s \<Rightarrow> ''str''
      | PRef a \<Rightarrow>
          (case obj_at h a of
             Some (OList xs) \<Rightarrow> ''list''
           | Some (ODict kvs) \<Rightarrow> ''dict''
           | None \<Rightarrow> ''object''))"

definition py_get_st :: "store \<Rightarrow> pval \<Rightarrow> string \<Rightarrow> pval \<Rightarrow> py_error + pval" where
  "py_get_st h v k dflt =
     (case v of
        PRef a \<Rightarrow>
          (case obj_at h a of
             Some (ODict kvs) \<Rightarrow> Inr (dict_get kvs k dflt)
           | _ \<Rightarrow> Inl (AttributeError (type_name_st h v)))
      | _ \<Rightarrow> Inl (AttributeError (type_name_st h v)))"

text \<open>
  \<^verbatim>\<open>str(x)\<close> builds a new string from the value and what it refers to; it raises
  \<^verbatim>\<open>RecursionError\<close> (\<open>None\<close> here) beyond the depth the interpreter allows. The depth
  that is left to it depends on the call stack and is a fixed number here. For a list
  that contains itself the interpreter prints an ellipsis where this definition gives
  the error; in both cases no object is changed, and no JSON text is read as such a
  list.
\<close>

definition py_str_st :: "store \<Rightarrow> pval \<Rightarrow> string option" where
  "py_str_st h v = map_option py_str (decode h recursion_limit v)"

definition format_last_modified_st :: "store \<Rightarrow> pval \<Rightarrow> pval" where
  "format_last_modified_st h last_modified =
     (if \<not> truthy_st h last_modified then PNone
      else case last_modified of
             PStr s \<Rightarrow> (case fromisoformat (replace_Z s) of
                          Some dt \<Rightarrow> PStr (strftime dt)
                        | None \<Rightarrow> last_modified)
           | _ \<Rightarrow> last_modified)"

text \<open>
  The two statements of the extractor that change an object: \<^verbatim>\<open>descriptions.append(x)\<close>
  and \<^verbatim>\<open>extracted[key] = value\<close>, on the object at the address they are given.
\<close>

definition list_append :: "nat \<Rightarrow> pval \<Rightarrow> store \<Rightarrow> store" where
  "list_append d x h =
     (case obj_at h d of Some (OList xs) \<Rightarrow> h[d := OList (xs @ [x])] | _ \<Rightarrow> h)"

definition dict_setitem :: "nat \<Rightarrow> string \<Rightarrow> pval \<Rightarrow> store \<Rightarrow> store" where
  "dict_setitem e k v h =
     (case obj_at h e of Some (ODict kvs) \<Rightarrow> h[e := ODict (dict_set kvs k v)] | _ \<Rightarrow> h)"

text \<open>The text of a string value.\<close>

fun pstr :: "pval \<Rightarrow> string" where
  "pstr (PStr s) = s"
| "pstr v = []"

text \<open>
  The loop of \<^verbatim>\<open>extract_habitat_descriptions\<close> on the store: \<open>d\<close> is the address of the
  list \<^verbatim>\<open>descriptions\<close>, and the items are those of the list that is iterated, which the
  loop does not change.
\<close>

fun habitat_loop_st ::
  "nat \<Rightarrow> pval list \<Rightarrow> string \<Rightarrow> string \<Rightarrow> store \<Rightarrow> (py_error + unit) \<times> store" where
  "habitat_loop_st d [] habitat_key desc_key h = (Inr (), h)"
| "habitat_loop_st d (item # rest) habitat_key desc_key h =
     (if is_dict_st h item then
        (case py_get_st h item habitat_key PNone of
           Inl e \<Rightarrow> (Inl e, h)
         | Inr habitat_obj \<Rightarrow>
             if is_dict_st h habitat_obj then
               (case py_get_st h habitat_obj desc_key PNone of
                  Inl e \<Rightarrow> (Inl e, h)
                | Inr desc \<Rightarrow>
                    if truthy_st h desc then
                      (case py_str_st h desc of
                         None \<Rightarrow> (Inl RecursionError, h)
                       | Some s \<Rightarrow>
                           habitat_loop_st d rest habitat_key desc_key
                             (list_append d (PStr s) h))
                    else habitat_loop_st d rest habitat_key desc_key h)
             else habitat_loop_st d rest habitat_key desc_key h)
      else habitat_loop_st d rest habitat_key desc_key h)"

text \<open>
  \<^verbatim>\<open>extract_habitat_descriptions\<close> on the store: \<^verbatim>\<open>descriptions = []\<close> is a new object, the
  loop appends to it, and the joined text is a new string.
\<close>

definition extract_habitat_descriptions_st ::
  "pval \<Rightarrow> string \<Rightarrow> string \<Rightarrow> store \<Rightarrow> (py_error + pval) \<times> store" where
  "extract_habitat_descriptions_st habitat_list habitat_key desc_key h =
     (if \<not> truthy_st h habitat_list \<or> \<not> is_list_st h habitat_list then (Inr PNone, h)
      else case habitat_list of
             PRef a \<Rightarrow>
               (case obj_at h a of
                  Some (OList items) \<Rightarrow>
                    (let d = length h; h1 = h @ [OList []]
                     in case habitat_loop_st d items habitat_key desc_key h1 of
                          (Inl e, h2) \<Rightarrow> (Inl e, h2)
                        | (Inr u, h2) \<Rightarrow>
                            (case obj_at h2 d of
                               Some (OList descriptions) \<Rightarrow>
                                 (Inr (if descriptions \<noteq> []
                                       then PStr (join '', '' (map pstr descriptions))
                                       else PNone), h2)
                             | _ \<Rightarrow> (Inr PNone, h2)))
                | _ \<Rightarrow> (Inr PNone, h))
           | _ \<Rightarrow> (Inr PNone, h))"

text \<open>Sequencing of steps that change the store and can raise.\<close>

definition bind_st ::
  "(py_error + 'a) \<times> store \<Rightarrow> ('a \<Rightarrow> store \<Rightarrow> (py_error + 'b) \<times> store)
     \<Rightarrow> (py_error + 'b) \<times> store" where
  "bind_st r f = (case r of (Inl e, h) \<Rightarrow> (Inl e, h) | (Inr x, h) \<Rightarrow> f x h)"

text \<open>
  \<^verbatim>\<open>x.get(key, {}) or {}\<close> on the store: the attribute \<^verbatim>\<open>get\<close> is looked up first, then
  the default \<^verbatim>\<open>{}\<close> is a new object, and so is the second \<^verbatim>\<open>{}\<close> when it is reached.
\<close>

definition get_or_empty_st :: "pval \<Rightarrow> string \<Rightarrow> store \<Rightarrow> (py_error + pval) \<times> store" where
  "get_or_empty_st x k h =
     (if \<not> is_dict_st h x then (Inl (AttributeError (type_name_st h x)), h)
      else (let dflt = PRef (length h); h1 = h @ [ODict []]
            in case py_get_st h1 x k dflt of
                 Inl e \<Rightarrow> (Inl e, h1)
               | Inr v \<Rightarrow>
                   if truthy_st h1 v then (Inr v, h1)
                   else (Inr (PRef (length h1)), h1 @ [ODict []])))"

text \<open>The loop over \<^verbatim>\<open>habitat_types\<close> on the store; \<open>e\<close> is the address of \<^verbatim>\<open>extracted\<close>.\<close>

fun habitat_fields_st ::
  "(string \<times> string \<times> string \<times> string) list \<Rightarrow> pval \<Rightarrow> nat \<Rightarrow> store
     \<Rightarrow> (py_error + pval) \<times> store" where
  "habitat_fields_st [] species_chars e h = (Inr (PRef e), h)"
| "habitat_fields_st ((api_key, habitat_key, desc_key, output_key) # rest) species_chars e h =
     bind_st (py_get_st h species_chars api_key PNone, h) (\<lambda>habitat_data h.
     bind_st (extract_habitat_descriptions_st habitat_data habitat_key desc_key h)
       (\<lambda>descriptions h.
          habitat_fields_st rest species_chars e (dict_setitem e output_key descriptions h)))"

text \<open>
  \<^verbatim>\<open>extract_data\<close> on the store. The reads of the dictionary display leave the store as
  it is; the display itself is the new object \<^verbatim>\<open>extracted\<close>. (The list \<^verbatim>\<open>habitat_types\<close> is a
  constant of the function and is not put in the store.)
\<close>

definition extract_data_st :: "pval \<Rightarrow> store \<Rightarrow> (py_error + pval) \<times> store" where
  "extract_data_st full_data h =
     bind_st (get_or_empty_st full_data ''speciesCharacteristics'' h) (\<lambda>species_chars h.
     bind_st (get_or_empty_st full_data ''speciesGlobal'' h) (\<lambda>species_global h.
     bind_st (get_or_empty_st full_data ''rankInfo'' h) (\<lambda>rank_info h.
     bind_st (get_or_empty_st rank_info ''rangeExtent'' h) (\<lambda>range_extent h.
     case
       bind_err (py_get_st h full_data ''lastModified'' PNone) (\<lambda>last_modified.
       let last_modified_readable = format_last_modified_st h last_modified in
       bind_err (py_get_st h full_data ''elementGlobalId'' PNone) (\<lambda>v1.
       bind_err (py_get_st h full_data ''uniqueId'' PNone) (\<lambda>v2.
       bind_err (py_get_st h species_global ''elementGlobalId'' PNone) (\<lambda>v3.
       bind_err (py_get_st h full_data ''primaryCommonName'' PNone) (\<lambda>v4.
       bind_err (py_get_st h full_data ''scientificName'' PNone) (\<lambda>v5.
       bind_err (py_get_st h full_data ''grankReasons'' PNone) (\<lambda>v7.
       bind_err (py_get_st h species_chars ''habitatComments'' PNone) (\<lambda>v8.
       bind_err (py_get_st h range_extent ''rangeExtentDescEn'' PNone) (\<lambda>v9.
       Inr [(''elementGlobalId'', v1),
            (''uniqueId'', v2),
            (''speciesGlobalElementGlobalId'', v3),
            (''primaryCommonName'', v4),
            (''scientificName'', v5),
            (''lastModified'', last_modified_readable),
            (''grankReasons'', v7),
            (''habitatComments'', v8),
            (''rangeExtent'', v9)])))))))))
     of
       Inl e \<Rightarrow> (Inl e, h)
     | Inr entries \<Rightarrow>
         habitat_fields_st habitat_types species_chars (length h) (h @ [ODict entries])))))"

subsection \<open>What a store stands for\<close>

text \<open>
  A store with one record: a name, a list of reasons, a timestamp and two marine
  habitats.
\<close>

definition example_store :: store where
  "example_store =
     [ODict [(''scientificName'', PStr ''Ursus arctos''), (''grankReasons'', PRef 1),
             (''speciesCharacteristics'', PRef 2), (''lastModified'', PStr ''2023-05-01T12:00:00Z'')],
      OList [PStr ''Rare''],
      ODict [(''speciesMarineHabitats'', PRef 3)],
      OList [PRef 4, PRef 5],
      ODict [(''marineHabitat'', PRef 6)],
      ODict [(''marineHabitat'', PRef 7)],
      ODict [(''marineHabitatDescEn'', PStr ''Near shore'')],
      ODict [(''marineHabitatDescEn'', PStr ''Pelagic'')]]"

text \<open>The entries of a dictionary of the store stand for the entries of a JSON object.\<close>

definition rep_items :: "store \<Rightarrow> (string \<times> pval) list \<Rightarrow> (string \<times> json) list \<Rightarrow> bool" where
  "rep_items h pkvs kvs = list_all2 (\<lambda>pkv kv. fst pkv = fst kv \<and> rep h (snd pkv) (snd kv)) pkvs kvs"

text \<open>
  A run on the store, from the store \<open>h\<close>, agrees with a result of the functions of the
  first sections: the store it leaves starts with \<open>h\<close>, an exception is the same
  exception, and a value is related by \<open>R\<close> in the store that is left.
\<close>

definition sim ::
  "(store \<Rightarrow> 'v \<Rightarrow> 'j \<Rightarrow> bool) \<Rightarrow> store \<Rightarrow> py_error + 'j \<Rightarrow> (py_error + 'v) \<times> store \<Rightarrow> bool" where
  "sim R h p s = (prefix h (snd s) \<and> rel_sum (=) (R (snd s)) (fst s) p)"

text \<open>
  The result is a dictionary at an address from \<open>n\<close> on, whose entries stand for the
  flat record.
\<close>

definition flat_rep :: "nat \<Rightarrow> store \<Rightarrow> pval \<Rightarrow> (string \<times> json) list \<Rightarrow> bool" where
  "flat_rep n h r flat =
     (case r of
        PRef e \<Rightarrow>
          n \<le> e \<and> (case obj_at h e of Some (ODict pkvs) \<Rightarrow> rep_items h pkvs flat | _ \<Rightarrow> False)
      | _ \<Rightarrow> False)"

text \<open>
  The flat record that a result on the store stands for: the exception, or the entries
  of the dictionary with the JSON value of each.
\<close>

definition flat_of ::
  "store \<Rightarrow> py_error + pval \<Rightarrow> (py_error + (string \<times> json) list) option" where
  "flat_of h r =
     (case r of
        Inl e \<Rightarrow> Some (Inl e)
      | Inr (PRef e) \<Rightarrow>
          (case obj_at h e of
             Some (ODict pkvs) \<Rightarrow>
               map_option Inr
                 (those (map (\<lambda>kv. map_option (Pair (fst kv)) (decode h recursion_limit (snd kv)))
                    pkvs))
           | _ \<Rightarrow> None)
      | _ \<Rightarrow> None)"

text \<open>The JSON value of the record of the example store.\<close>

definition example_record :: json where
  "example_record =
     JObj [(''scientificName'', JStr ''Ursus arctos''),
           (''grankReasons'', JList [JStr ''Rare'']),
           (''speciesCharacteristics'',
            JObj [(''speciesMarineHabitats'',
                   JList [JObj [(''marineHabitat'', JObj [(''marineHabitatDescEn'', JStr ''Near shore'')])],
                          JObj [(''marineHabitat'', JObj [(''marineHabitatDescEn'', JStr ''Pelagic'')])]])]),
           (''lastModified'', JStr ''2023-05-01T12:00:00Z'')]"

section \<open>What the specification says, in its own words\<close>

text \<open>
  Habitat descriptions as the specification states them: a list entry that is not a
  mapping gives nothing; otherwise the nested object of the category is looked up,
  then its English description, and a non-empty description is collected. The
  collected descriptions are joined in list order; none collected is absent.
\<close>

definition item_descriptions :: "string \<Rightarrow> string \<Rightarrow> json \<Rightarrow> string list" where
  "item_descriptions habitat_key desc_key item =
     (case item of
        JObj kvs \<Rightarrow>
          (case dict_get kvs habitat_key JNull of
             JObj habitat_obj \<Rightarrow>
               (if truthy (dict_get habitat_obj desc_key JNull)
                then [py_str (dict_get habitat_obj desc_key JNull)] else [])
           | _ \<Rightarrow> [])
      | _ \<Rightarrow> [])"

definition habitat_descriptions_spec :: "json \<Rightarrow> string \<Rightarrow> string \<Rightarrow> json" where
  "habitat_descriptions_spec habitat_list habitat_key desc_key =
     (case habitat_list of
        JList items \<Rightarrow>
          (let collected = concat (map (item_descriptions habitat_key desc_key) items)
           in if collected = [] then JNull else JStr (join '', '' collected))
      | _ \<Rightarrow> JNull)"

text \<open>
  An intermediate value that the extractor can go through: a mapping, or a value
  that counts as false (\<^verbatim>\<open>None\<close>, \<^verbatim>\<open>False\<close>, a zero, an empty string, list or mapping),
  which \<^verbatim>\<open>or {}\<close> replaces by the empty mapping.
\<close>

definition dict_or_falsy :: "json \<Rightarrow> bool" where
  "dict_or_falsy v = (is_dict v \<or> \<not> truthy v)"

definition or_empty :: "json \<Rightarrow> json" where
  "or_empty v = (if truthy v then v else JObj [])"

fun dict_items :: "json \<Rightarrow> (string \<times> json) list" where
  "dict_items (JObj kvs) = kvs"
| "dict_items v = []"

text \<open>
  The four intermediate values of a record: \<^verbatim>\<open>speciesCharacteristics\<close>,
  \<^verbatim>\<open>speciesGlobal\<close>, \<^verbatim>\<open>rankInfo\<close>, and \<^verbatim>\<open>rangeExtent\<close> inside \<^verbatim>\<open>rankInfo\<close>.
\<close>

definition intermediates_ok :: "(string \<times> json) list \<Rightarrow> bool" where
  "intermediates_ok kvs =
     (dict_or_falsy (dict_get kvs ''speciesCharacteristics'' JNull)
      \<and> dict_or_falsy (dict_get kvs ''speciesGlobal'' JNull)
      \<and> dict_or_falsy (dict_get kvs ''rankInfo'' JNull)
      \<and> (case dict_get kvs ''rankInfo'' JNull of
            JObj rank_info \<Rightarrow> dict_or_falsy (dict_get rank_info ''rangeExtent'' JNull)
          | _ \<Rightarrow> True))"

text \<open>The names of the seven habitat fields of the flat record.\<close>

definition habitat_outputs :: "string list" where
  "habitat_outputs =
     map (\<lambda>(api_key, habitat_key, desc_key, output_key). output_key) habitat_types"

text \<open>
  The flat record of a record \<open>kvs\<close> whose characteristics, global and range extent
  mappings are \<open>sc\<close>, \<open>sg\<close> and \<open>re\<close>, written out field by field.
\<close>

definition flat_record ::
  "(string \<times> json) list \<Rightarrow> (string \<times> json) list \<Rightarrow> (string \<times> json) list
     \<Rightarrow> (string \<times> json) list \<Rightarrow> (string \<times> json) list" where
  "flat_record kvs sc sg re =
     [(''elementGlobalId'', dict_get kvs ''elementGlobalId'' JNull),
      (''uniqueId'', dict_get kvs ''uniqueId'' JNull),
      (''speciesGlobalElementGlobalId'', dict_get sg ''elementGlobalId'' JNull),
      (''primaryCommonName'', dict_get kvs ''primaryCommonName'' JNull),
      (''scientificName'', dict_get kvs ''scientificName'' JNull),
      (''lastModified'', format_last_modified (dict_get kvs ''lastModified'' JNull)),
      (''grankReasons'', dict_get kvs ''grankReasons'' JNull),
      (''habitatComments'', dict_get sc ''habitatComments'' JNull),
      (''rangeExtent'', dict_get re ''rangeExtentDescEn'' JNull),
      (''marineHabitats'', extract_habitat_descriptions
         (dict_get sc ''speciesMarineHabitats'' JNull) ''marineHabitat'' ''marineHabitatDescEn''),
      (''terrestrialHabitats'', extract_habitat_descriptions
         (dict_get sc ''speciesTerrestrialHabitats'' JNull) ''terrestrialHabitat''
         ''terrestrialHabitatDescEn''),
      (''riverineHabitats'', extract_habitat_descriptions
         (dict_get sc ''speciesRiverineHabitats'' JNull) ''riverineHabitat''
         ''riverineHabitatDescEn''),
      (''palustrineHabitats'', extract_habitat_descriptions
         (dict_get sc ''speciesPalustrineHabitats'' JNull) ''palustrineHabitat''
         ''palustrineHabitatDescEn''),
      (''lacustrineHabitats'', extract_habitat_descriptions
         (dict_get sc ''speciesLacustrineHabitats'' JNull) ''lacustrineHabitat''
         ''lacustrineHabitatDescEn''),
      (''subterraneanHabitats'', extract_habitat_descriptions
         (dict_get sc ''speciesSubterraneanHabitats'' JNull) ''subterraneanHabitat''
         ''subterraneanHabitatDescEn''),
      (''estuarineHabitats'', extract_habitat_descriptions
         (dict_get sc ''speciesEstuarineHabitats'' JNull) ''estuarineHabitat''
         ''estuarineHabitatDescEn'')]"

fun habitat_results ::
  "(string \<times> string \<times> string \<times> string) list \<Rightarrow> (string \<times> json) list \<Rightarrow> (string \<times> json) list
     \<Rightarrow> (string \<times> json) list" where
  "habitat_results [] sc extracted = extracted"
| "habitat_results ((api_key, habitat_key, desc_key, output_key) # rest) sc extracted =
     habitat_results rest sc
       (dict_set extracted output_key
          (extract_habitat_descriptions (dict_get sc api_key JNull) habitat_key desc_key))"

text \<open>
  A run over three identifiers in which the second request is answered with the
  status 404 and the two others with an empty record.
\<close>

definition example_net :: "nat \<Rightarrow> string \<Rightarrow> http_reply" where
  "example_net i u =
     (if i = 1 then HTTPError 404 ''Not Found'' else Response 200 ''OK'' (Inr (JObj [])))"

section \<open>Text forms are never empty\<close>

lemma digits_of_nonempty: "digits_of n \<noteq> []"
  by (subst digits_of.simps) simp

lemma str_int_nonempty: "str_int i \<noteq> []"
  by (simp add: str_int_def digits_of_nonempty)

lemma float_repr_nonempty: "float_repr f \<noteq> []"
  by (auto simp: float_repr_def Let_def split: pyfloat.splits prod.splits)

lemma py_str_truthy_nonempty: "truthy v \<Longrightarrow> py_str v \<noteq> []"
  by (cases v) (simp_all add: str_int_nonempty float_repr_nonempty)

lemma join_nonempty: "x \<noteq> [] \<Longrightarrow> join sep (x # xs) \<noteq> []"
  by (cases xs) simp_all

lemma join_collected_nonempty:
  "ds \<noteq> [] \<Longrightarrow> \<forall>d \<in> set ds. d \<noteq> [] \<Longrightarrow> join sep ds \<noteq> []"
  by (cases ds) (auto simp: join_nonempty)

lemma error_str_nonempty: "error_str e \<noteq> []"
  by (cases e) simp_all

section \<open>Habitat descriptions\<close>

lemma habitat_loop_collects:
  "habitat_loop items hk dk acc = acc @ concat (map (item_descriptions hk dk) items)"
  by (induction items arbitrary: acc)
     (auto simp: item_descriptions_def Let_def split: json.splits)

lemma item_descriptions_nonempty: "d \<in> set (item_descriptions hk dk item) \<Longrightarrow> d \<noteq> []"
  by (auto simp: item_descriptions_def py_str_truthy_nonempty split: json.splits if_splits)

lemma extract_habitat_descriptions_JNull [simp]:
  "extract_habitat_descriptions JNull hk dk = JNull"
  by (simp add: extract_habitat_descriptions_def)

text \<open>
  C3. \<^verbatim>\<open>extract_habitat_descriptions\<close> computes what the specification states: entries
  that are not mappings are skipped, every non-empty English description is collected
  in list order and the collected ones are joined with a comma and a space. The result
  is never the empty string, it is absent for a value that is not a list, and the list
  \<^verbatim>\<open>[{cat:{descEn:"A"}}, {cat:{}}, {cat:{descEn:"B"}}]\<close> gives \<^verbatim>\<open>"A, B"\<close>.
\<close>

theorem habitat_descriptions_collected:
  "extract_habitat_descriptions habitat_list habitat_key desc_key
     = habitat_descriptions_spec habitat_list habitat_key desc_key
   \<and> extract_habitat_descriptions habitat_list habitat_key desc_key \<noteq> JStr []
   \<and> (\<not> is_list habitat_list \<longrightarrow>
        extract_habitat_descriptions habitat_list habitat_key desc_key = JNull)
   \<and> extract_habitat_descriptions
        (JList [JObj [(''cat'', JObj [(''descEn'', JStr ''A'')])],
                JObj [(''cat'', JObj [])],
                JObj [(''cat'', JObj [(''descEn'', JStr ''B'')])]]) ''cat'' ''descEn''
      = JStr ''A, B''"
proof (intro conjI)
  show eq: "extract_habitat_descriptions habitat_list habitat_key desc_key
     = habitat_descriptions_spec habitat_list habitat_key desc_key"
    by (cases habitat_list)
       (simp_all add: extract_habitat_descriptions_def habitat_descriptions_spec_def
          habitat_loop_collects Let_def)
  show "extract_habitat_descriptions habitat_list habitat_key desc_key \<noteq> JStr []"
  proof (cases habitat_list)
    case (JList items)
    have "\<forall>d \<in> set (concat (map (item_descriptions habitat_key desc_key) items)). d \<noteq> []"
      by (auto dest: item_descriptions_nonempty)
    then have "concat (map (item_descriptions habitat_key desc_key) items) \<noteq> [] \<Longrightarrow>
        join '', '' (concat (map (item_descriptions habitat_key desc_key) items)) \<noteq> []"
      by (rule join_collected_nonempty [rotated])
    then show ?thesis
      unfolding eq using JList
      by (simp add: habitat_descriptions_spec_def Let_def)
  qed (simp_all add: extract_habitat_descriptions_def)
  show "\<not> is_list habitat_list \<longrightarrow>
        extract_habitat_descriptions habitat_list habitat_key desc_key = JNull"
    by (simp add: extract_habitat_descriptions_def)
  show "extract_habitat_descriptions
        (JList [JObj [(''cat'', JObj [(''descEn'', JStr ''A'')])],
                JObj [(''cat'', JObj [])],
                JObj [(''cat'', JObj [(''descEn'', JStr ''B'')])]]) ''cat'' ''descEn''
      = JStr ''A, B''"
    by (simp add: extract_habitat_descriptions_def dict_get_def)
qed

theorem habitat_descriptions_collected_witness:
  "\<not> is_list (JStr ''marine'')
   \<and> extract_habitat_descriptions (JStr ''marine'') ''marineHabitat'' ''marineHabitatDescEn''
       = JNull"
proof -
  have h: "\<not> is_list (JStr ''marine'')" by simp
  have "\<not> is_list (JStr ''marine'') \<longrightarrow>
      extract_habitat_descriptions (JStr ''marine'') ''marineHabitat'' ''marineHabitatDescEn''
        = JNull"
    using habitat_descriptions_collected
      [of "JStr ''marine''" "''marineHabitat''" "''marineHabitatDescEn''"]
    by blast
  with h show ?thesis by blast
qed

section \<open>The modification timestamp\<close>

text \<open>
  C4. An absent timestamp is absent. A string that \<^verbatim>\<open>fromisoformat\<close> reads, after every
  \<^verbatim>\<open>Z\<close> is replaced by \<^verbatim>\<open>+00:00\<close>, is formatted; a string that it refuses is returned
  as it is. \<^verbatim>\<open>2023-05-01T12:00:00Z\<close> is read as noon with the offset zero and becomes
  \<^verbatim>\<open>May 01, 2023, 12:00:00 PM UTC\<close>.
\<close>

theorem last_modified_resolution:
  "format_last_modified JNull = JNull
   \<and> (s \<noteq> [] \<and> fromisoformat (replace_Z s) = Some dt \<longrightarrow>
        format_last_modified (JStr s) = JStr (strftime dt))
   \<and> (s \<noteq> [] \<and> fromisoformat (replace_Z s) = None \<longrightarrow>
        format_last_modified (JStr s) = JStr s)
   \<and> fromisoformat (replace_Z ''2023-05-01T12:00:00Z'')
       = Some \<lparr>year = 2023, month = 5, day = 1, hour = 12, minute = 0, second = 0,
               microsecond = 0, utcoffset = Some 0\<rparr>
   \<and> format_last_modified (JStr ''2023-05-01T12:00:00Z'')
       = JStr ''May 01, 2023, 12:00:00 PM UTC''"
proof (intro conjI)
  show "fromisoformat (replace_Z ''2023-05-01T12:00:00Z'')
       = Some \<lparr>year = 2023, month = 5, day = 1, hour = 12, minute = 0, second = 0,
               microsecond = 0, utcoffset = Some 0\<rparr>"
    by code_simp
  show "format_last_modified (JStr ''2023-05-01T12:00:00Z'')
       = JStr ''May 01, 2023, 12:00:00 PM UTC''"
    by code_simp
qed (simp_all add: format_last_modified_def)

text \<open>
  A timestamp with a fraction of a second and an offset that is read and formatted,
  and a text that is no timestamp and is passed through.
\<close>

theorem last_modified_resolution_witness:
  "fromisoformat (replace_Z ''2024-02-29T23:59:59.250-05:30'')
     = Some \<lparr>year = 2024, month = 2, day = 29, hour = 23, minute = 59, second = 59,
             microsecond = 250000, utcoffset = Some (- 19800000000)\<rparr>
   \<and> format_last_modified (JStr ''2024-02-29T23:59:59.250-05:30'')
       = JStr (strftime \<lparr>year = 2024, month = 2, day = 29, hour = 23, minute = 59, second = 59,
             microsecond = 250000, utcoffset = Some (- 19800000000)\<rparr>)
   \<and> strftime \<lparr>year = 2024, month = 2, day = 29, hour = 23, minute = 59, second = 59,
             microsecond = 250000, utcoffset = Some (- 19800000000)\<rparr>
       = ''February 29, 2024, 11:59:59 PM UTC-05:30''
   \<and> fromisoformat (replace_Z ''last Tuesday'') = None
   \<and> format_last_modified (JStr ''last Tuesday'') = JStr ''last Tuesday''"
proof -
  let ?dt = "\<lparr>year = 2024, month = 2, day = 29, hour = 23, minute = 59, second = 59,
             microsecond = 250000, utcoffset = Some (- 19800000000)\<rparr>"
  have p: "fromisoformat (replace_Z ''2024-02-29T23:59:59.250-05:30'') = Some ?dt"
    by code_simp
  have f: "strftime ?dt = ''February 29, 2024, 11:59:59 PM UTC-05:30''"
    by code_simp
  have n: "fromisoformat (replace_Z ''last Tuesday'') = None"
    by code_simp
  have "format_last_modified (JStr ''2024-02-29T23:59:59.250-05:30'') = JStr (strftime ?dt)"
    using last_modified_resolution [of "''2024-02-29T23:59:59.250-05:30''" ?dt] p by blast
  moreover have "format_last_modified (JStr ''last Tuesday'') = JStr ''last Tuesday''"
    using last_modified_resolution [of "''last Tuesday''"] n by blast
  ultimately show ?thesis using p f n by blast
qed

text \<open>
  C10. \<^verbatim>\<open>format_last_modified\<close> returns \<^verbatim>\<open>None\<close> for every value that counts as false,
  and so for the empty string, which is present and not a missing field.
\<close>

theorem falsy_last_modified_absent:
  "(\<not> truthy v \<longrightarrow> format_last_modified v = JNull) \<and> format_last_modified (JStr []) = JNull"
  by (simp add: format_last_modified_def)

theorem falsy_last_modified_absent_witness:
  "\<not> truthy (JInt 0) \<and> format_last_modified (JInt 0) = JNull"
  using falsy_last_modified_absent [of "JInt 0"] by simp

section \<open>The extractor on a record\<close>

lemma bind_err_simps [simp]:
  "bind_err (Inl e) f = Inl e" "bind_err (Inr x) f = f x"
  by (simp_all add: bind_err_def)

lemma dict_get_Nil [simp]: "dict_get [] k d = d"
  by (simp add: dict_get_def)

lemma py_get_if:
  "py_get x k d = (if is_dict x then Inr (dict_get (dict_items x) k d)
                   else Inl (AttributeError (type_name x)))"
  by (cases x) simp_all

lemma get_or_empty_if:
  "get_or_empty x k = (if is_dict x then Inr (or_empty (dict_get (dict_items x) k JNull))
                       else Inl (AttributeError (type_name x)))"
  by (cases x) (auto simp: get_or_empty_def or_empty_def dict_get_def split: option.splits)

lemma is_dict_or_empty: "is_dict (or_empty v) = dict_or_falsy v"
  by (simp add: or_empty_def dict_or_falsy_def)

lemma habitat_fields_dict:
  "is_dict x \<Longrightarrow>
     habitat_fields hts x extracted = Inr (habitat_results hts (dict_items x) extracted)"
  by (induction hts "dict_items x" extracted rule: habitat_results.induct)
     (simp_all add: py_get_if)

text \<open>
  What \<^verbatim>\<open>extract_data\<close> does on a mapping: the first intermediate value that is not a
  mapping raises, in the order the code reaches them; otherwise the flat record.
\<close>

lemma extract_data_dict:
  "extract_data (JObj kvs) =
     (let sc = or_empty (dict_get kvs ''speciesCharacteristics'' JNull);
          sg = or_empty (dict_get kvs ''speciesGlobal'' JNull);
          ri = or_empty (dict_get kvs ''rankInfo'' JNull);
          re = or_empty (dict_get (dict_items ri) ''rangeExtent'' JNull)
      in if \<not> is_dict ri then Inl (AttributeError (type_name ri))
         else if \<not> is_dict sg then Inl (AttributeError (type_name sg))
         else if \<not> is_dict sc then Inl (AttributeError (type_name sc))
         else if \<not> is_dict re then Inl (AttributeError (type_name re))
         else Inr (flat_record kvs (dict_items sc) (dict_items sg) (dict_items re)))"
  by (simp add: extract_data_def get_or_empty_if py_get_if habitat_fields_dict Let_def
        habitat_types_def flat_record_def)

lemma intermediates_ok_iff:
  "intermediates_ok kvs \<longleftrightarrow>
     is_dict (or_empty (dict_get kvs ''rankInfo'' JNull))
     \<and> is_dict (or_empty (dict_get kvs ''speciesGlobal'' JNull))
     \<and> is_dict (or_empty (dict_get kvs ''speciesCharacteristics'' JNull))
     \<and> is_dict (or_empty (dict_get (dict_items (or_empty (dict_get kvs ''rankInfo'' JNull)))
                  ''rangeExtent'' JNull))"
  by (cases "dict_get kvs ''rankInfo'' JNull")
     (auto simp: intermediates_ok_def is_dict_or_empty or_empty_def dict_or_falsy_def dict_get_def)

lemma extract_data_returns_iff:
  "(\<exists>r. extract_data (JObj kvs) = Inr r) \<longleftrightarrow> intermediates_ok kvs"
  by (simp add: extract_data_dict intermediates_ok_iff Let_def)

lemma extract_data_InrD:
  assumes "extract_data (JObj kvs) = Inr r"
  shows "r = flat_record kvs
           (dict_items (or_empty (dict_get kvs ''speciesCharacteristics'' JNull)))
           (dict_items (or_empty (dict_get kvs ''speciesGlobal'' JNull)))
           (dict_items (or_empty (dict_get (dict_items (or_empty (dict_get kvs ''rankInfo'' JNull)))
                  ''rangeExtent'' JNull)))"
  using assms by (simp add: extract_data_dict Let_def split: if_splits)

lemma flat_record_keys: "map fst (flat_record kvs sc sg re) = tl headers"
  by (simp add: flat_record_def headers_def)

lemma flat_record_no_chars:
  "k \<in> set (''habitatComments'' # habitat_outputs) \<Longrightarrow>
     dict_get (flat_record kvs [] sg re) k JNull = JNull"
  by (auto simp: habitat_outputs_def habitat_types_def flat_record_def dict_get_def)

lemma flat_record_no_global:
  "dict_get (flat_record kvs sc [] re) ''speciesGlobalElementGlobalId'' JNull = JNull"
  by (simp add: flat_record_def dict_get_def)

lemma flat_record_no_range:
  "dict_get (flat_record kvs sc sg []) ''rangeExtent'' JNull = JNull"
  by (simp add: flat_record_def dict_get_def)

text \<open>
  C1, as the code has it. On a mapping, \<^verbatim>\<open>extract_data\<close> returns a flat record exactly
  when each of \<^verbatim>\<open>speciesCharacteristics\<close>, \<^verbatim>\<open>speciesGlobal\<close>, \<^verbatim>\<open>rankInfo\<close> and
  \<^verbatim>\<open>rankInfo.rangeExtent\<close> is missing, counts as false, or is a mapping. The record
  then has the sixteen fields in their fixed order, and a missing or false
  intermediate value leaves the fields that come from it absent.
\<close>

theorem extract_data_total_when_intermediates_ok:
  "((\<exists>r. extract_data (JObj kvs) = Inr r) \<longleftrightarrow> intermediates_ok kvs)
   \<and> (extract_data (JObj kvs) = Inr r \<longrightarrow>
        map fst r = tl headers
        \<and> (\<not> truthy (dict_get kvs ''speciesCharacteristics'' JNull) \<longrightarrow>
             (\<forall>k \<in> set (''habitatComments'' # habitat_outputs). dict_get r k JNull = JNull))
        \<and> (\<not> truthy (dict_get kvs ''speciesGlobal'' JNull) \<longrightarrow>
             dict_get r ''speciesGlobalElementGlobalId'' JNull = JNull)
        \<and> (\<not> truthy (dict_get kvs ''rankInfo'' JNull) \<longrightarrow>
             dict_get r ''rangeExtent'' JNull = JNull)
        \<and> (\<forall>rank_info. dict_get kvs ''rankInfo'' JNull = JObj rank_info
               \<and> \<not> truthy (dict_get rank_info ''rangeExtent'' JNull) \<longrightarrow>
             dict_get r ''rangeExtent'' JNull = JNull))"
proof (intro conjI impI)
  show "(\<exists>r. extract_data (JObj kvs) = Inr r) \<longleftrightarrow> intermediates_ok kvs"
    by (rule extract_data_returns_iff)
next
  assume r: "extract_data (JObj kvs) = Inr r"
  note form = extract_data_InrD [OF r]
  show "map fst r = tl headers"
    by (subst form) (rule flat_record_keys)
  show "\<forall>k \<in> set (''habitatComments'' # habitat_outputs). dict_get r k JNull = JNull"
    if "\<not> truthy (dict_get kvs ''speciesCharacteristics'' JNull)"
    using that flat_record_no_chars by (subst form) (simp add: or_empty_def)
  show "dict_get r ''speciesGlobalElementGlobalId'' JNull = JNull"
    if "\<not> truthy (dict_get kvs ''speciesGlobal'' JNull)"
    using that by (subst form) (simp add: or_empty_def flat_record_no_global)
  show "dict_get r ''rangeExtent'' JNull = JNull"
    if "\<not> truthy (dict_get kvs ''rankInfo'' JNull)"
    using that by (subst form) (simp add: or_empty_def flat_record_no_range)
  show "\<forall>rank_info. dict_get kvs ''rankInfo'' JNull = JObj rank_info
               \<and> \<not> truthy (dict_get rank_info ''rangeExtent'' JNull) \<longrightarrow>
             dict_get r ''rangeExtent'' JNull = JNull"
    by (subst form) (auto simp: or_empty_def flat_record_no_range)
qed

text \<open>
  A record with the name of a species, an empty \<^verbatim>\<open>rankInfo\<close> and no other
  intermediate value: the extractor returns, and the fields of the missing values are
  absent.
\<close>

theorem extract_data_total_when_intermediates_ok_witness:
  "intermediates_ok [(''scientificName'', JStr ''Ursus arctos''), (''rankInfo'', JObj [])]
   \<and> extract_data (JObj [(''scientificName'', JStr ''Ursus arctos''), (''rankInfo'', JObj [])])
       = Inr (flat_record [(''scientificName'', JStr ''Ursus arctos''), (''rankInfo'', JObj [])]
                [] [] [])
   \<and> map fst (flat_record [(''scientificName'', JStr ''Ursus arctos''), (''rankInfo'', JObj [])]
                [] [] []) = tl headers
   \<and> dict_get (flat_record [(''scientificName'', JStr ''Ursus arctos''), (''rankInfo'', JObj [])]
                [] [] []) ''habitatComments'' JNull = JNull
   \<and> dict_get (flat_record [(''scientificName'', JStr ''Ursus arctos''), (''rankInfo'', JObj [])]
                [] [] []) ''estuarineHabitats'' JNull = JNull
   \<and> dict_get (flat_record [(''scientificName'', JStr ''Ursus arctos''), (''rankInfo'', JObj [])]
                [] [] []) ''speciesGlobalElementGlobalId'' JNull = JNull
   \<and> dict_get (flat_record [(''scientificName'', JStr ''Ursus arctos''), (''rankInfo'', JObj [])]
                [] [] []) ''rangeExtent'' JNull = JNull"
proof -
  let ?kvs = "[(''scientificName'', JStr ''Ursus arctos''), (''rankInfo'', JObj [])]"
  let ?r = "flat_record ?kvs [] [] []"
  have r: "extract_data (JObj ?kvs) = Inr ?r"
    by (simp add: extract_data_dict or_empty_def dict_get_def Let_def)
  have f: "\<not> truthy (dict_get ?kvs ''speciesCharacteristics'' JNull)"
    "\<not> truthy (dict_get ?kvs ''speciesGlobal'' JNull)"
    "\<not> truthy (dict_get ?kvs ''rankInfo'' JNull)"
    "dict_get ?kvs ''rankInfo'' JNull = JObj []" "\<not> truthy (dict_get [] ''rangeExtent'' JNull)"
    by (simp_all add: dict_get_def)
  have m: "''habitatComments'' \<in> set (''habitatComments'' # habitat_outputs)"
    "''estuarineHabitats'' \<in> set (''habitatComments'' # habitat_outputs)"
    by (simp_all add: habitat_outputs_def habitat_types_def)
  note t = extract_data_total_when_intermediates_ok [of ?kvs ?r]
  from t r have "intermediates_ok ?kvs" by blast
  moreover from t r have "map fst ?r = tl headers" by blast
  moreover from t r f(1) m have "dict_get ?r ''habitatComments'' JNull = JNull"
    "dict_get ?r ''estuarineHabitats'' JNull = JNull" by blast+
  moreover from t r f(2) have "dict_get ?r ''speciesGlobalElementGlobalId'' JNull = JNull"
    by blast
  moreover from t r f(4,5) have "dict_get ?r ''rangeExtent'' JNull = JNull" by blast
  ultimately show ?thesis using r by blast
qed

text \<open>
  C1, as the claim states it, fails: with \<^verbatim>\<open>speciesCharacteristics\<close> a non-empty
  string, \<^verbatim>\<open>species_chars.get\<close> raises \<^verbatim>\<open>AttributeError\<close>.
\<close>

theorem extract_data_raises_on_string_characteristics:
  "extract_data (JObj [(''speciesCharacteristics'', JStr ''none recorded'')])
     = Inl (AttributeError ''str'')"
  by (simp add: extract_data_dict or_empty_def dict_get_def Let_def)

section \<open>Rows\<close>

lemma length_headers: "length headers = 17"
  by (simp add: headers_def)

lemma data_row_Some:
  "data result = Some d \<Longrightarrow>
     data_row result
       = Inr (url result # map (\<lambda>k. format_csv_value (dict_get d k JNull)) (tl headers))"
  by (simp add: data_row_def headers_def)

lemma result_row_failure:
  "error result = Some msg \<Longrightarrow> msg \<noteq> [] \<Longrightarrow>
     result_row result = Inr (url result # msg # replicate 15 [])"
  by (simp add: result_row_def length_headers)

lemma result_row_length:
  "result_row result = Inr row \<Longrightarrow> length row = 17"
  by (auto simp: result_row_def data_row_def length_headers split: option.splits if_splits)

lemma result_row_hd:
  "result_row result = Inr row \<Longrightarrow> hd row = url result"
  by (auto simp: result_row_def data_row_def split: option.splits if_splits)

text \<open>
  C2, as the code has it. The header has seventeen columns, the address and sixteen
  extracted values, and so has every row that is written. A failure row is the address,
  the message and fifteen empty columns; a success row is the address and the sixteen
  fields in the order of the header.
\<close>

theorem rows_have_seventeen_columns:
  "length headers = 17
   \<and> (result_row result = Inr row \<longrightarrow> length row = length headers)
   \<and> (error result = Some msg \<and> msg \<noteq> [] \<longrightarrow>
        result_row result = Inr (url result # msg # replicate 15 []))
   \<and> (error result = None \<and> data result = Some d \<longrightarrow>
        result_row result
          = Inr (url result # map (\<lambda>k. format_csv_value (dict_get d k JNull)) (tl headers)))"
  by (auto simp: length_headers result_row_length result_row_failure data_row_Some
        result_row_def)

theorem rows_have_seventeen_columns_witness:
  "result_row \<lparr>url = ''u'', error = Some ''timed out'', data = None\<rparr>
     = Inr (''u'' # ''timed out'' # replicate 15 [])
   \<and> length (''u'' # ''timed out'' # replicate 15 []) = length headers
   \<and> result_row \<lparr>url = ''u'', error = None, data = Some [(''uniqueId'', JInt 7)]\<rparr>
       = Inr (''u'' # map (\<lambda>k. format_csv_value (dict_get [(''uniqueId'', JInt 7)] k JNull))
                       (tl headers))"
proof -
  let ?f = "\<lparr>url = ''u'', error = Some ''timed out'', data = None\<rparr>"
  let ?s = "\<lparr>url = ''u'', error = None, data = Some [(''uniqueId'', JInt 7)]\<rparr>"
  have f: "result_row ?f = Inr (''u'' # ''timed out'' # replicate 15 [])"
    using rows_have_seventeen_columns [of ?f _ "''timed out''"] by simp
  have l: "length (''u'' # ''timed out'' # replicate 15 []) = length headers"
    using rows_have_seventeen_columns [of ?f "''u'' # ''timed out'' # replicate 15 []"] f
    by blast
  have s: "result_row ?s
       = Inr (''u'' # map (\<lambda>k. format_csv_value (dict_get [(''uniqueId'', JInt 7)] k JNull))
                       (tl headers))"
    using rows_have_seventeen_columns [of ?s _ _ "[(''uniqueId'', JInt 7)]"] by simp
  from f l s show ?thesis by blast
qed

text \<open>
  C2, as the claim states it, fails: the header does not have sixteen columns, and a
  failure row has fifteen empty columns after the message, not fourteen.
\<close>

theorem header_has_seventeen_columns:
  "length headers \<noteq> 16
   \<and> result_row \<lparr>url = ''u'', error = Some ''404 Not Found'', data = None\<rparr>
       = Inr (''u'' # ''404 Not Found'' # replicate 15 [])
   \<and> length (replicate 15 ([] :: string)) \<noteq> 14"
  by (simp add: length_headers result_row_def)

section \<open>The fetcher and the run\<close>

lemma fetch_taxon_data_url: "url (fetch_taxon_data route i reply) = API_HOST @ API_PATH @ route"
  by (auto simp: fetch_taxon_data_def Let_def split: http_reply.splits sum.splits)

text \<open>
  The outcomes of \<^verbatim>\<open>fetch_taxon_data\<close>, case by case. It is a total function: every
  reply gives a result, none an exception.
\<close>

lemma fetch_taxon_data_outcomes:
  "status \<noteq> 200 \<Longrightarrow> fetch_taxon_data route i (Response status reason body)
     = \<lparr>url = API_HOST @ API_PATH @ route, error = Some (str_int status @ '' '' @ reason),
        data = None\<rparr>"
  "fetch_taxon_data route i (HTTPError code reason)
     = \<lparr>url = API_HOST @ API_PATH @ route, error = Some (str_int code @ '' '' @ reason),
        data = None\<rparr>"
  "fetch_taxon_data route i (OtherError msg)
     = \<lparr>url = API_HOST @ API_PATH @ route, error = Some msg, data = None\<rparr>"
  "fetch_taxon_data route i (Response 200 reason (Inl msg))
     = \<lparr>url = API_HOST @ API_PATH @ route, error = Some msg, data = None\<rparr>"
  "extract_data full_data = Inl e \<Longrightarrow> fetch_taxon_data route i (Response 200 reason (Inr full_data))
     = \<lparr>url = API_HOST @ API_PATH @ route, error = Some (error_str e), data = None\<rparr>"
  "extract_data full_data = Inr r \<Longrightarrow> fetch_taxon_data route i (Response 200 reason (Inr full_data))
     = \<lparr>url = API_HOST @ API_PATH @ route, error = None, data = Some r\<rparr>"
  by (simp_all add: fetch_taxon_data_def)

lemma fetch_taxon_data_success_iff:
  "data (fetch_taxon_data route i reply) = Some r \<longleftrightarrow>
     (\<exists>reason full_data. reply = Response 200 reason (Inr full_data)
        \<and> extract_data full_data = Inr r)"
  by (cases reply) (auto simp: fetch_taxon_data_def Let_def split: sum.splits)

text \<open>
  C9. When \<^verbatim>\<open>extract_data\<close> raises on the decoded body of a response with status 200,
  \<^verbatim>\<open>fetch_taxon_data\<close> returns the failure outcome with the text of the exception, the
  row of that outcome is a failure row, and the loop goes on to the next identifier.
\<close>

theorem extraction_error_becomes_failure_row:
  assumes "extract_data full_data = Inl e"
      and "net i (API_HOST @ API_PATH @ route) = Response 200 reason (Inr full_data)"
  shows "fetch_taxon_data route i (Response 200 reason (Inr full_data))
           = \<lparr>url = API_HOST @ API_PATH @ route, error = Some (error_str e), data = None\<rparr>
    \<and> result_row (fetch_taxon_data route i (Response 200 reason (Inr full_data)))
           = Inr ((API_HOST @ API_PATH @ route) # error_str e # replicate 15 [])
    \<and> write_loop net i (route # rest) st
           = write_loop net (Suc i) rest
               \<lparr>csv_rows = csv_rows st
                   @ [(API_HOST @ API_PATH @ route) # error_str e # replicate 15 []],
                rows_written = rows_written st + 1\<rparr>"
proof -
  have f: "fetch_taxon_data route i (Response 200 reason (Inr full_data))
           = \<lparr>url = API_HOST @ API_PATH @ route, error = Some (error_str e), data = None\<rparr>"
    using assms(1) by (simp add: fetch_taxon_data_def)
  have r: "result_row (fetch_taxon_data route i (Response 200 reason (Inr full_data)))
           = Inr ((API_HOST @ API_PATH @ route) # error_str e # replicate 15 [])"
    unfolding f by (simp add: result_row_failure error_str_nonempty)
  have "write_loop net i (route # rest) st
           = write_loop net (Suc i) rest
               \<lparr>csv_rows = csv_rows st
                   @ [(API_HOST @ API_PATH @ route) # error_str e # replicate 15 []],
                rows_written = rows_written st + 1\<rparr>"
    using r assms(2) by simp
  with f r show ?thesis by blast
qed

text \<open>
  A body that decodes to a list: \<^verbatim>\<open>full_data.get\<close> raises, the run of the one
  identifier ends with the header and the failure row.
\<close>

theorem extraction_error_becomes_failure_row_witness:
  "extract_data (JList []) = Inl (AttributeError ''list'')
   \<and> fetch_taxon_data ''ELEMENT_GLOBAL.2.1'' 0 (Response 200 ''OK'' (Inr (JList [])))
       = \<lparr>url = API_HOST @ API_PATH @ ''ELEMENT_GLOBAL.2.1'',
          error = Some (error_str (AttributeError ''list'')), data = None\<rparr>
   \<and> write_loop (\<lambda>i u. Response 200 ''OK'' (Inr (JList []))) 0 [''ELEMENT_GLOBAL.2.1'']
        \<lparr>csv_rows = [headers], rows_written = 0\<rparr>
       = Inr \<lparr>csv_rows = [headers] @ [(API_HOST @ API_PATH @ ''ELEMENT_GLOBAL.2.1'')
                  # error_str (AttributeError ''list'') # replicate 15 []],
              rows_written = 0 + 1\<rparr>"
proof -
  let ?net = "\<lambda>(i::nat) (u::string). Response 200 ''OK'' (Inr (JList []))"
  let ?st = "\<lparr>csv_rows = [headers], rows_written = 0\<rparr>"
  let ?st' = "\<lparr>csv_rows = [headers] @ [(API_HOST @ API_PATH @ ''ELEMENT_GLOBAL.2.1'')
                  # error_str (AttributeError ''list'') # replicate 15 []],
              rows_written = 0 + 1\<rparr>"
  have e: "extract_data (JList []) = Inl (AttributeError ''list'')"
    by (simp add: extract_data_def get_or_empty_def)
  have n: "?net 0 (API_HOST @ API_PATH @ ''ELEMENT_GLOBAL.2.1'')
             = Response 200 ''OK'' (Inr (JList []))"
    by simp
  note t = extraction_error_becomes_failure_row [of "JList []" "AttributeError ''list''" ?net 0
      "''ELEMENT_GLOBAL.2.1''" "''OK''" "[]" ?st, OF e n]
  from t have "write_loop ?net 0 [''ELEMENT_GLOBAL.2.1''] ?st = write_loop ?net (Suc 0) [] ?st'"
    by (simp only: run_state.simps)
  also have "\<dots> = Inr ?st'"
    by (simp only: write_loop.simps)
  finally have w: "write_loop ?net 0 [''ELEMENT_GLOBAL.2.1''] ?st = Inr ?st'" .
  from t have f: "fetch_taxon_data ''ELEMENT_GLOBAL.2.1'' 0 (Response 200 ''OK'' (Inr (JList [])))
       = \<lparr>url = API_HOST @ API_PATH @ ''ELEMENT_GLOBAL.2.1'',
          error = Some (error_str (AttributeError ''list'')), data = None\<rparr>"
    by (rule conjunct1)
  from e f w show ?thesis by (intro conjI)
qed

lemma write_loop_rows:
  "write_loop net i routes st = Inr st' \<Longrightarrow>
     \<exists>rows. csv_rows st' = csv_rows st @ rows
       \<and> length rows = length routes
       \<and> map hd rows = map (\<lambda>route. API_HOST @ API_PATH @ route) routes
       \<and> rows_written st' = rows_written st + length routes"
proof (induction routes arbitrary: i st)
  case Nil
  then show ?case by simp
next
  case (Cons route rest)
  let ?result = "fetch_taxon_data route i (net i (API_HOST @ API_PATH @ route))"
  from Cons.prems obtain row where
    row: "result_row ?result = Inr row" and
    step: "write_loop net (Suc i) rest
             \<lparr>csv_rows = csv_rows st @ [row], rows_written = rows_written st + 1\<rparr> = Inr st'"
    by (auto simp: Let_def split: sum.splits)
  from Cons.IH [OF step] obtain rows where
    rows: "csv_rows st' = (csv_rows st @ [row]) @ rows" "length rows = length rest"
      "map hd rows = map (\<lambda>route. API_HOST @ API_PATH @ route) rest"
      "rows_written st' = rows_written st + 1 + length rest"
    by auto
  have "hd row = API_HOST @ API_PATH @ route"
    using result_row_hd [OF row] by (simp add: fetch_taxon_data_url)
  with rows show ?case
    by (intro exI [of _ "row # rows"]) simp
qed

text \<open>The row at each place of the file is the row of the identifier at that place.\<close>

lemma write_loop_nth:
  "write_loop net i routes st = Inr st' \<Longrightarrow> j < length routes \<Longrightarrow>
     result_row (fetch_taxon_data (routes ! j) (i + j)
                   (net (i + j) (API_HOST @ API_PATH @ routes ! j)))
       = Inr (csv_rows st' ! (length (csv_rows st) + j))"
proof (induction routes arbitrary: i st j)
  case Nil
  then show ?case by simp
next
  case (Cons route rest)
  let ?result = "fetch_taxon_data route i (net i (API_HOST @ API_PATH @ route))"
  from Cons.prems(1) obtain row where
    row: "result_row ?result = Inr row" and
    step: "write_loop net (Suc i) rest
             \<lparr>csv_rows = csv_rows st @ [row], rows_written = rows_written st + 1\<rparr> = Inr st'"
    by (auto simp: Let_def split: sum.splits)
  show ?case
  proof (cases j)
    case 0
    from write_loop_rows [OF step] obtain rows where
      "csv_rows st' = (csv_rows st @ [row]) @ rows" by auto
    then have "csv_rows st' ! length (csv_rows st) = row"
      by (simp add: nth_append)
    with row 0 show ?thesis by simp
  next
    case (Suc j')
    with Cons.prems(2) have "j' < length rest" by simp
    from Cons.IH [OF step this] Suc show ?thesis by simp
  qed
qed

text \<open>
  C6. When \<^verbatim>\<open>fetch_data\<close> completes, the counter of rows written is the number of
  identifiers, the file holds the header and one row for each identifier, in order, each
  the row of the outcome of its identifier; and an identifier that is answered with
  \<^verbatim>\<open>404 Not Found\<close> has the row of its address, the message and empty columns.
\<close>

theorem one_row_per_identifier:
  assumes "fetch_data net CURRENT_SET = Inr st"
  shows "rows_written st = length CURRENT_SET
    \<and> length (csv_rows st) = length CURRENT_SET + 1
    \<and> hd (csv_rows st) = headers
    \<and> map hd (tl (csv_rows st)) = map (\<lambda>route. API_HOST @ API_PATH @ route) CURRENT_SET
    \<and> (\<forall>j < length CURRENT_SET.
          result_row (fetch_taxon_data (CURRENT_SET ! j) j
                        (net j (API_HOST @ API_PATH @ CURRENT_SET ! j)))
            = Inr (csv_rows st ! (j + 1)))
    \<and> (\<forall>j < length CURRENT_SET.
          net j (API_HOST @ API_PATH @ CURRENT_SET ! j) = HTTPError 404 ''Not Found'' \<longrightarrow>
          csv_rows st ! (j + 1)
            = (API_HOST @ API_PATH @ CURRENT_SET ! j) # ''404 Not Found'' # replicate 15 [])"
proof -
  note run = assms [unfolded fetch_data_def]
  from write_loop_rows [OF run] obtain rows where
    rows: "csv_rows st = [headers] @ rows" "length rows = length CURRENT_SET"
      "map hd rows = map (\<lambda>route. API_HOST @ API_PATH @ route) CURRENT_SET"
      "rows_written st = length CURRENT_SET"
    by auto
  have nth: "result_row (fetch_taxon_data (CURRENT_SET ! j) j
                        (net j (API_HOST @ API_PATH @ CURRENT_SET ! j)))
            = Inr (csv_rows st ! (j + 1))" if "j < length CURRENT_SET" for j
    using write_loop_nth [OF run that] by simp
  have nf: "csv_rows st ! (j + 1)
            = (API_HOST @ API_PATH @ CURRENT_SET ! j) # ''404 Not Found'' # replicate 15 []"
    if "j < length CURRENT_SET"
      and "net j (API_HOST @ API_PATH @ CURRENT_SET ! j) = HTTPError 404 ''Not Found''" for j
  proof -
    have "str_int 404 = ''404''"
      by code_simp
    then have "result_row (fetch_taxon_data (CURRENT_SET ! j) j (HTTPError 404 ''Not Found''))
      = Inr ((API_HOST @ API_PATH @ CURRENT_SET ! j) # ''404 Not Found'' # replicate 15 [])"
      by (simp add: fetch_taxon_data_def result_row_failure)
    with nth [OF that(1)] that(2) show ?thesis by simp
  qed
  from rows nth nf show ?thesis by simp
qed

theorem one_row_per_identifier_witness:
  "fetch_data example_net [''a'', ''b'', ''c'']
     = Inr \<lparr>csv_rows =
              [headers,
               (API_HOST @ API_PATH @ ''a'') # replicate 16 [],
               (API_HOST @ API_PATH @ ''b'') # ''404 Not Found'' # replicate 15 [],
               (API_HOST @ API_PATH @ ''c'') # replicate 16 []],
            rows_written = 3\<rparr>
   \<and> rows_written \<lparr>csv_rows =
              [headers,
               (API_HOST @ API_PATH @ ''a'') # replicate 16 [],
               (API_HOST @ API_PATH @ ''b'') # ''404 Not Found'' # replicate 15 [],
               (API_HOST @ API_PATH @ ''c'') # replicate 16 []],
            rows_written = 3\<rparr> = length [''a'', ''b'', ''c'']
   \<and> length [headers,
               (API_HOST @ API_PATH @ ''a'') # replicate 16 [],
               (API_HOST @ API_PATH @ ''b'') # ''404 Not Found'' # replicate 15 [],
               (API_HOST @ API_PATH @ ''c'') # replicate 16 []] = length [''a'', ''b'', ''c''] + 1"
proof -
  let ?st = "\<lparr>csv_rows =
              [headers,
               (API_HOST @ API_PATH @ ''a'') # replicate 16 [],
               (API_HOST @ API_PATH @ ''b'') # ''404 Not Found'' # replicate 15 [],
               (API_HOST @ API_PATH @ ''c'') # replicate 16 []],
            rows_written = 3\<rparr>"
  have run: "fetch_data example_net [''a'', ''b'', ''c''] = Inr ?st"
    by code_simp
  from one_row_per_identifier [OF run] run show ?thesis
    by simp
qed

text \<open>
  C5 fails on one input. An exception whose text is empty gives a failure outcome with
  the message \<^verbatim>\<open>""\<close>; \<^verbatim>\<open>if result.get("error")\<close> takes it for a success, \<^verbatim>\<open>data.get\<close> raises
  on \<^verbatim>\<open>None\<close>, and the run ends with no row for the identifier.
\<close>

theorem empty_error_message_aborts_run:
  "fetch_taxon_data route i (OtherError [])
     = \<lparr>url = API_HOST @ API_PATH @ route, error = Some [], data = None\<rparr>
   \<and> result_row (fetch_taxon_data route i (OtherError [])) = Inl (AttributeError ''NoneType'')
   \<and> fetch_data (\<lambda>i u. OtherError []) (route # rest)
       = Inl (AttributeError ''NoneType'', \<lparr>csv_rows = [headers], rows_written = 0\<rparr>)"
  by (simp add: fetch_taxon_data_def result_row_def data_row_def fetch_data_def)

section \<open>Reading back what \<^verbatim>\<open>json.dumps\<close> writes\<close>

lemma of_char_char_of_small: "n < 256 \<Longrightarrow> (of_char (char_of (n::nat)) :: nat) = n"
  by (simp add: of_char_of)

lemma hex_val_hex_digit: "d < 16 \<Longrightarrow> hex_val (hex_digit d) = Some d"
  by (auto simp: hex_val_def hex_digit_def Let_def of_char_of)

lemma parse_hex4_hex4: "n < 256 \<Longrightarrow> parse_hex4 (hex4 n @ r) = Some n"
proof -
  assume n: "n < 256"
  then have "n div 4096 mod 16 = 0" "n div 256 mod 16 = 0" "n div 16 mod 16 = n div 16"
    "n div 16 < 16" "n mod 16 < 16"
    by auto
  then show ?thesis
    by (simp add: parse_hex4_def hex4_def hex_val_hex_digit)
qed

lemma length_hex4 [simp]: "length (hex4 n) = 4"
  by (simp add: hex4_def)

lemma scanstring_escape_char:
  "scanstring s = Some (str, rest) \<Longrightarrow> scanstring (json_escape_char c @ s) = Some (c # str, rest)"
proof -
  assume s: "scanstring s = Some (str, rest)"
  have n: "(of_char c :: nat) < 256" by simp
  show ?thesis
    using s parse_hex4_hex4 [OF n]
    by (auto simp: json_escape_char_def unescape_def)
qed

lemma scanstring_json_string:
  "scanstring (concat (map json_escape_char s) @ CHR 0x22 # rest) = Some (s, rest)"
  by (induction s) (simp_all add: scanstring_escape_char)

lemma char_eq_iff_of_char: "c = d \<longleftrightarrow> (of_char c :: nat) = of_char d"
  by simp

lemma digit_char_props:
  "0 \<le> d \<Longrightarrow> d < 10 \<Longrightarrow> is_digit (digit_char d) \<and> digit_val (digit_char d) = d
     \<and> (digit_char d = CHR ''0'' \<longleftrightarrow> d = 0)"
proof -
  assume "0 \<le> d" "d < 10"
  then have "d = 0 \<or> d = 1 \<or> d = 2 \<or> d = 3 \<or> d = 4 \<or> d = 5 \<or> d = 6 \<or> d = 7 \<or> d = 8 \<or> d = 9"
    by arith
  then show ?thesis
    by (auto simp: digit_char_def is_digit_def digit_val_def char_eq_iff_of_char of_char_of)
qed

lemma digits_of_all_digits: "0 \<le> n \<Longrightarrow> list_all is_digit (digits_of n)"
proof (induction n rule: digits_of.induct)
  case (1 n)
  show ?case
  proof (cases "n < 10")
    case True
    with 1 show ?thesis by (subst digits_of.simps) (simp add: digit_char_props)
  next
    case False
    with 1 have "list_all is_digit (digits_of (n div 10))" by simp
    moreover have "is_digit (digit_char (n mod 10))" by (simp add: digit_char_props)
    ultimately show ?thesis using False by (subst digits_of.simps) simp
  qed
qed

lemma digits_of_value:
  "0 \<le> n \<Longrightarrow> foldl (\<lambda>a c. 10 * a + digit_val c) 0 (digits_of n) = n"
proof (induction n rule: digits_of.induct)
  case (1 n)
  show ?case
  proof (cases "n < 10")
    case True
    with 1 show ?thesis by (subst digits_of.simps) (simp add: digit_char_props)
  next
    case False
    with 1 have "foldl (\<lambda>a c. 10 * a + digit_val c) 0 (digits_of (n div 10)) = n div 10" by simp
    moreover have "digit_val (digit_char (n mod 10)) = n mod 10" by (simp add: digit_char_props)
    ultimately show ?thesis using False by (subst digits_of.simps) simp
  qed
qed

lemma digits_of_hd:
  "0 \<le> n \<Longrightarrow> digits_of n \<noteq> [] \<and> is_digit (hd (digits_of n))
     \<and> (hd (digits_of n) = CHR ''0'' \<longrightarrow> n = 0)"
proof (induction n rule: digits_of.induct)
  case (1 n)
  show ?case
  proof (cases "n < 10")
    case True
    with 1 show ?thesis by (subst (1 2 3) digits_of.simps) (simp add: digit_char_props)
  next
    case False
    with 1 have "digits_of (n div 10) \<noteq> [] \<and> is_digit (hd (digits_of (n div 10)))
     \<and> (hd (digits_of (n div 10)) = CHR ''0'' \<longrightarrow> n div 10 = 0)" by simp
    with False show ?thesis by (subst (1 2 3) digits_of.simps) auto
  qed
qed

lemma digits_of_0: "digits_of 0 = ''0''"
  using digit_char_props [of 0] by (subst digits_of.simps) simp

lemma takeWhile_digits:
  "list_all is_digit ds \<Longrightarrow> ends_value rest \<Longrightarrow> takeWhile is_digit (ds @ rest) = ds"
  by (cases rest) (auto simp: ends_value_def is_digit_def list_all_iff takeWhile_append)

lemma no_fraction_at_end: "ends_value rest \<Longrightarrow> frac_digits rest = [] \<and> exponent rest = None"
  by (cases rest) (auto simp: ends_value_def frac_digits_def exponent_def)

lemma parse_unsigned_digit_string:
  assumes "list_all is_digit ds" "ds \<noteq> []" "hd ds = CHR ''0'' \<longrightarrow> ds = ''0''" "ends_value rest"
  shows "parse_unsigned (ds @ rest) = Some (decimal 0 ds, rest)"
proof -
  have sel: "int_digits (ds @ rest) = ds"
    using assms(2,3) takeWhile_digits [OF assms(1,4)] by (auto simp: int_digits_def)
  show ?thesis
    unfolding parse_unsigned_def sel Let_def using assms(2) by simp
qed

lemma parse_number_digit_string:
  assumes "list_all is_digit ds" "ds \<noteq> []" "hd ds = CHR ''0'' \<longrightarrow> ds = ''0''" "ends_value rest"
  shows "parse_number (ds @ rest) = Some (JInt (decimal 0 ds), rest)"
    and "parse_number (CHR ''-'' # ds @ rest) = Some (JInt (- decimal 0 ds), rest)"
proof -
  have neg: "hd ds \<noteq> CHR ''-''"
    using assms(1,2) by (cases ds) (auto simp: is_digit_def)
  show "parse_number (ds @ rest) = Some (JInt (decimal 0 ds), rest)"
    using neg assms(2) no_fraction_at_end [OF assms(4)]
    by (simp add: parse_number_def parse_unsigned_digit_string [OF assms])
  show "parse_number (CHR ''-'' # ds @ rest) = Some (JInt (- decimal 0 ds), rest)"
    using no_fraction_at_end [OF assms(4)]
    by (simp add: parse_number_def parse_unsigned_digit_string [OF assms])
qed

lemma parse_number_str_int:
  assumes "ends_value rest"
  shows "parse_number (str_int i @ rest) = Some (JInt i, rest)"
proof -
  have ds: "0 \<le> n \<Longrightarrow> list_all is_digit (digits_of n) \<and> digits_of n \<noteq> []
      \<and> (hd (digits_of n) = CHR ''0'' \<longrightarrow> digits_of n = ''0'')
      \<and> decimal 0 (digits_of n) = n" for n
    using digits_of_all_digits [of n] digits_of_hd [of n] digits_of_value [of n] digits_of_0
    by (auto simp: decimal_def)
  show ?thesis
  proof (cases "i < 0")
    case False
    then have "0 \<le> i" by simp
    from ds [OF this] parse_number_digit_string(1) [of "digits_of i" rest] assms False
    show ?thesis by (simp add: str_int_def)
  next
    case True
    then have "0 \<le> - i" by simp
    from ds [OF this] parse_number_digit_string(2) [of "digits_of (- i)" rest] assms True
    show ?thesis by (simp add: str_int_def)
  qed
qed

lemma join_Cons_start: "join sep (x # xs) = x @ (if xs = [] then [] else sep @ join sep xs)"
  by (cases xs) simp_all

lemma json_dumps_start: "no_floats v \<Longrightarrow> \<exists>c cs. json_dumps v = c # cs \<and> value_start c"
proof (cases v)
  case (JInt i)
  show ?thesis
  proof (cases "i < 0")
    case True
    with JInt show ?thesis by (simp add: str_int_def value_start_def)
  next
    case False
    then have "digits_of i \<noteq> [] \<and> is_digit (hd (digits_of i))"
      using digits_of_hd [of i] by simp
    with JInt False show ?thesis
      by (cases "digits_of i") (auto simp: str_int_def value_start_def)
  qed
qed (auto simp: value_start_def json_string_def)

lemma skip_ws_start: "value_start c \<Longrightarrow> skip_ws (c # cs) = c # cs"
  by (auto simp: skip_ws_def is_ws_def value_start_def is_digit_def)

lemma skip_ws_dumps [simp]:
  "no_floats v \<Longrightarrow> skip_ws (json_dumps v @ rest) = json_dumps v @ rest"
  using json_dumps_start [of v] by (auto simp: skip_ws_start)

lemma skip_ws_space [simp]: "skip_ws (CHR '' '' # s) = skip_ws s"
  by (simp add: skip_ws_def is_ws_def)

lemma skip_ws_delims [simp]:
  "skip_ws (CHR '','' # s) = CHR '','' # s" "skip_ws (CHR '']'' # s) = CHR '']'' # s"
  "skip_ws (CHR ''}'' # s) = CHR ''}'' # s" "skip_ws (CHR '':'' # s) = CHR '':'' # s"
  "skip_ws (CHR 0x22 # s) = CHR 0x22 # s" "skip_ws [] = []"
  by (simp_all add: skip_ws_def is_ws_def)

lemma ends_value_delims [simp]:
  "ends_value (CHR '','' # s)" "ends_value (CHR '']'' # s)" "ends_value (CHR ''}'' # s)"
  "ends_value []"
  by (simp_all add: ends_value_def)

lemma parse_elements_dumps:
  assumes IH: "\<And>x n rest. x \<in> set xs \<Longrightarrow> length (json_dumps x) \<le> n \<Longrightarrow> ends_value rest \<Longrightarrow>
                 parse_value py n (json_dumps x @ rest) = Some (x, rest)"
    and nf: "list_all no_floats xs"
  shows "xs \<noteq> [] \<Longrightarrow> length (join '', '' (map json_dumps xs)) < n \<Longrightarrow>
     parse_elements py n (join '', '' (map json_dumps xs) @ CHR '']'' # rest) acc
       = Some (JList (acc @ xs), rest)"
  using IH nf
proof (induction xs arbitrary: n acc rule: induct_list012)
  case 1
  then show ?case by simp
next
  case (2 x)
  from "2.prems"(2) obtain m where n: "n = Suc m" "length (json_dumps x) \<le> m"
    by (cases n) auto
  have "parse_value py m (json_dumps x @ CHR '']'' # rest) = Some (x, CHR '']'' # rest)"
    by (rule "2.prems"(3)) (simp_all add: n)
  then show ?case by (simp add: n)
next
  case (3 x y zs)
  let ?tail = "join '', '' (map json_dumps (y # zs)) @ CHR '']'' # rest"
  from "3.prems"(2) obtain m where n: "n = Suc m" "length (json_dumps x) \<le> m"
    "length (join '', '' (map json_dumps (y # zs))) < m"
    by (cases n) auto
  have x: "parse_value py m (json_dumps x @ CHR '','' # CHR '' '' # ?tail)
             = Some (x, CHR '','' # CHR '' '' # ?tail)"
    by (rule "3.prems"(3)) (simp_all add: n)
  have "no_floats y"
    using "3.prems"(4) by simp
  then obtain c cs where y: "json_dumps y = c # cs" "value_start c"
    using json_dumps_start [of y] by auto
  have sk: "skip_ws ?tail = ?tail"
    using y by (simp add: join_Cons_start skip_ws_start)
  have "parse_elements py m ?tail (acc @ [x]) = Some (JList ((acc @ [x]) @ y # zs), rest)"
    by (rule "3.IH"(2)) (use n "3.prems"(3,4) in auto)
  with x sk show ?case by (simp add: n)
qed

lemma dict_set_fresh: "k \<notin> fst ` set kvs \<Longrightarrow> dict_set kvs k v = kvs @ [(k, v)]"
  by (induction kvs) auto

lemma scanstring_key:
  "scanstring (tl (json_string k @ rest)) = Some (k, rest)"
  by (simp add: json_string_def scanstring_json_string)

lemma json_string_hd: "json_string k @ rest \<noteq> [] \<and> hd (json_string k @ rest) = CHR 0x22"
  by (simp add: json_string_def)

lemma parse_members_dumps:
  assumes IH: "\<And>kv n rest. kv \<in> set kvs \<Longrightarrow> length (json_dumps (snd kv)) \<le> n \<Longrightarrow>
                 ends_value rest \<Longrightarrow>
                 parse_value py n (json_dumps (snd kv) @ rest) = Some (snd kv, rest)"
    and nf: "list_all (\<lambda>kv. no_floats (snd kv)) kvs"
  shows "kvs \<noteq> [] \<Longrightarrow> distinct (map fst (acc @ kvs)) \<Longrightarrow>
     length (join '', '' (map (\<lambda>kv. json_string (fst kv) @ '': '' @ json_dumps (snd kv)) kvs)) < n \<Longrightarrow>
     parse_members py n
       (join '', '' (map (\<lambda>kv. json_string (fst kv) @ '': '' @ json_dumps (snd kv)) kvs)
          @ CHR ''}'' # rest) acc
       = Some (JObj (acc @ kvs), rest)"
  using IH nf
proof (induction kvs arbitrary: n acc rule: induct_list012)
  case 1
  then show ?case by simp
next
  case (2 kv)
  obtain k v where kv: "kv = (k, v)" by (cases kv)
  from "2.prems"(3) obtain m where n: "n = Suc m" "length (json_dumps v) \<le> m"
    by (cases n) (auto simp: kv)
  have v: "parse_value py m (json_dumps v @ CHR ''}'' # rest) = Some (v, CHR ''}'' # rest)"
    using "2.prems"(4) [of kv m "CHR ''}'' # rest"] n by (simp add: kv)
  have fresh: "dict_set acc k v = acc @ [(k, v)]"
    using "2.prems"(2) by (intro dict_set_fresh) (auto simp: kv)
  have nv: "no_floats v"
    using "2.prems"(5) by (simp add: kv)
  show ?case
    using v fresh nv json_string_hd [of k]
    by (simp add: n kv scanstring_key)
next
  case (3 kv kv' kvs)
  obtain k v where kv: "kv = (k, v)" by (cases kv)
  let ?member = "\<lambda>kv. json_string (fst kv) @ '': '' @ json_dumps (snd kv)"
  let ?tail = "join '', '' (map ?member (kv' # kvs)) @ CHR ''}'' # rest"
  from "3.prems"(3) obtain m where n: "n = Suc m" "length (json_dumps v) \<le> m"
    "length (join '', '' (map ?member (kv' # kvs))) < m"
    by (cases n) (auto simp: kv)
  have v: "parse_value py m (json_dumps v @ CHR '','' # CHR '' '' # ?tail)
             = Some (v, CHR '','' # CHR '' '' # ?tail)"
    using "3.prems"(4) [of kv m "CHR '','' # CHR '' '' # ?tail"] n by (simp add: kv)
  have fresh: "dict_set acc k v = acc @ [(k, v)]"
    using "3.prems"(2) by (intro dict_set_fresh) (auto simp: kv)
  have sk: "skip_ws ?tail = ?tail"
    by (simp add: join_Cons_start json_string_def)
  have nv: "no_floats v"
    using "3.prems"(5) by (simp add: kv)
  have "parse_members py m ?tail (acc @ [kv]) = Some (JObj ((acc @ [kv]) @ kv' # kvs), rest)"
    by (rule "3.IH"(2)) (use n "3.prems"(2,4,5) in auto)
  with v fresh sk nv json_string_hd [of k] show ?case
    by (simp add: n kv scanstring_key)
qed

lemma take_literal_start:
  "value_start c \<Longrightarrow> c \<noteq> CHR ''n'' \<Longrightarrow> take 4 (c # cs) \<noteq> ''null''"
  "value_start c \<Longrightarrow> c \<noteq> CHR ''t'' \<Longrightarrow> take 4 (c # cs) \<noteq> ''true''"
  "value_start c \<Longrightarrow> c \<noteq> CHR ''f'' \<Longrightarrow> take 5 (c # cs) \<noteq> ''false''"
  by (auto simp: take_Suc_conv_app_nth numeral_eq_Suc)

lemma parse_value_dumps:
  "keys_distinct v \<Longrightarrow> no_floats v \<Longrightarrow> length (json_dumps v) \<le> n \<Longrightarrow> ends_value rest \<Longrightarrow>
     parse_value py n (json_dumps v @ rest) = Some (v, rest)"
proof (induction v arbitrary: n rest)
  case JNull
  then show ?case by (cases n) simp_all
next
  case (JBool b)
  then show ?case by (cases n; cases b) simp_all
next
  case (JInt i)
  then obtain m where n: "n = Suc m" by (cases n) (auto simp: str_int_nonempty)
  obtain c cs where s: "str_int i = c # cs" "is_digit c \<or> c = CHR ''-''"
    using json_dumps_start [of "JInt i"] digits_of_hd [of i]
    by (cases "i < 0"; cases "digits_of i") (auto simp: str_int_def)
  then have c: "c \<noteq> CHR 0x22" "c \<noteq> CHR ''{''" "c \<noteq> CHR ''[''" "c \<noteq> CHR ''n''"
    "c \<noteq> CHR ''t''" "c \<noteq> CHR ''f''"
    by (auto simp: is_digit_def)
  have "parse_number (str_int i @ rest) = Some (JInt i, rest)"
    by (rule parse_number_str_int [OF JInt.prems(4)])
  then show ?case
    using c by (simp add: n s)
next
  case (JFloat f)
  then show ?case by simp
next
  case (JStr s)
  then obtain m where n: "n = Suc m" by (cases n) (auto simp: json_string_def)
  show ?case
    using json_string_hd [of s rest] by (simp add: n scanstring_key)
next
  case (JList xs)
  then obtain m where n: "n = Suc m" by (cases n) auto
  show ?case
  proof (cases "xs = []")
    case True
    then show ?thesis by (simp add: n)
  next
    case False
    then obtain x xs' where xs: "xs = x # xs'" by (cases xs) auto
    have nf: "list_all no_floats xs"
      using JList.prems(2) by simp
    then obtain c cs where x: "json_dumps x = c # cs" "value_start c"
      using json_dumps_start [of x] by (auto simp: xs)
    let ?text = "join '', '' (map json_dumps xs) @ CHR '']'' # rest"
    have sk: "skip_ws ?text = ?text" "?text \<noteq> []" "hd ?text \<noteq> CHR '']''"
      using x by (auto simp: xs join_Cons_start skip_ws_start value_start_def is_digit_def)
    have "parse_elements py m ?text [] = Some (JList ([] @ xs), rest)"
    proof (rule parse_elements_dumps [OF _ nf False])
      show "length (join '', '' (map json_dumps xs)) < m"
        using JList.prems(3) by (simp add: n)
      show "parse_value py n (json_dumps x @ rest) = Some (x, rest)"
        if "x \<in> set xs" "length (json_dumps x) \<le> n" "ends_value rest" for x n rest
        using JList.IH [OF that(1) _ _ that(2,3)] JList.prems(1,2) that(1)
        by (simp add: list_all_iff)
    qed
    with sk show ?thesis by (simp add: n)
  qed
next
  case (JObj kvs)
  then obtain m where n: "n = Suc m" by (cases n) auto
  show ?case
  proof (cases "kvs = []")
    case True
    then show ?thesis by (simp add: n)
  next
    case False
    then obtain kv kvs' where kvs: "kvs = kv # kvs'" by (cases kvs) auto
    let ?member = "\<lambda>kv. json_string (fst kv) @ '': '' @ json_dumps (snd kv)"
    let ?text = "join '', '' (map ?member kvs) @ CHR ''}'' # rest"
    have sk: "skip_ws ?text = ?text" "?text \<noteq> []" "hd ?text \<noteq> CHR ''}''"
      by (auto simp: kvs join_Cons_start json_string_def)
    have nf: "list_all (\<lambda>kv. no_floats (snd kv)) kvs"
      using JObj.prems(2) by simp
    have "parse_members py m ?text [] = Some (JObj ([] @ kvs), rest)"
    proof (rule parse_members_dumps [OF _ nf False])
      show "distinct (map fst ([] @ kvs))"
        using JObj.prems(1) by simp
      show "length (join '', '' (map ?member kvs)) < m"
        using JObj.prems(3) by (simp add: n)
      show "parse_value py n (json_dumps (snd kv) @ rest) = Some (snd kv, rest)"
        if "kv \<in> set kvs" "length (json_dumps (snd kv)) \<le> n" "ends_value rest" for kv n rest
      proof -
        have "keys_distinct (snd kv)" "no_floats (snd kv)"
          using JObj.prems(1,2) that(1) by (simp_all add: list_all_iff)
        moreover have "snd kv \<in> Basic_BNFs.snds kv"
          by (cases kv) simp
        ultimately show ?thesis
          using JObj.IH [OF that(1) _ _ _ that(2,3)] by blast
      qed
    qed
    with sk show ?thesis by (simp add: n)
  qed
qed

lemma loads_dumps:
  assumes "keys_distinct v" "no_floats v"
  shows "loads py (json_dumps v) = Some v"
proof -
  have "parse_value py (Suc (length (json_dumps v))) (json_dumps v @ []) = Some (v, [])"
    by (rule parse_value_dumps [OF assms]) simp_all
  moreover have "skip_ws (json_dumps v) = json_dumps v"
    using skip_ws_dumps [OF assms(2), of "[]"] by simp
  ultimately show ?thesis
    by (simp add: loads_def del: parse_value.simps)
qed



text \<open>
  C7, as the claim states it for every list, fails on a float that is not finite. The
  text \<^verbatim>\<open>[1e999]\<close> is valid JSON and \<^verbatim>\<open>json.loads\<close> reads it as a list with the positive
  infinity; \<^verbatim>\<open>format_csv_value\<close> writes that list as \<^verbatim>\<open>[Infinity]\<close>, which is not valid
  JSON. The value that is not a number is written \<^verbatim>\<open>[NaN]\<close>, which is not valid JSON
  either.
\<close>

lemma csv_value_nan_probe:
  "format_csv_value (JList [JFloat NaN]) = ''[NaN]'' \<and> \<not> valid_json ''[NaN]''"
  unfolding valid_json_def by code_simp

section \<open>The extractor leaves its argument as it is\<close>

subsection \<open>A store that grows keeps what it stands for\<close>

lemma obj_at_prefix: "prefix h h' \<Longrightarrow> obj_at h a = Some ob \<Longrightarrow> obj_at h' a = Some ob"
  by (auto simp: obj_at_def prefix_def nth_append split: if_splits)

lemma obj_at_append [simp]: "a < length h \<Longrightarrow> obj_at (h @ ext) a = obj_at h a"
  by (simp add: obj_at_def nth_append)

lemma obj_at_new [simp]: "obj_at (h @ ob # ext) (length h) = Some ob"
  by (simp add: obj_at_def nth_append)

lemma obj_at_SomeD: "obj_at h a = Some ob \<Longrightarrow> a < length h \<and> h ! a = ob"
  by (auto simp: obj_at_def split: if_splits)

lemma those_map_Some:
  "those (map f xs) = Some ys \<longleftrightarrow> list_all2 (\<lambda>x y. f x = Some y) xs ys"
proof (induction xs arbitrary: ys)
  case Nil
  then show ?case by auto
next
  case (Cons x xs)
  then show ?case
    by (cases ys) (auto split: option.splits)
qed

lemma decode_prefix:
  "prefix h h' \<Longrightarrow> decode h n v = Some j \<Longrightarrow> decode h' n v = Some j"
proof (induction n arbitrary: v j)
  case 0
  then show ?case by (cases v) simp_all
next
  case (Suc n)
  show ?case
  proof (cases v)
    case (PRef a)
    with Suc.prems obtain ob where ob: "obj_at h a = Some ob"
      by (auto split: option.splits)
    then have ob': "obj_at h' a = Some ob"
      using Suc.prems(1) by (rule obj_at_prefix [rotated])
    show ?thesis
    proof (cases ob)
      case (OList xs)
      with Suc.prems PRef ob obtain js where
        js: "j = JList js" "list_all2 (\<lambda>x y. decode h n x = Some y) xs js"
        by (auto simp: those_map_Some)
      from js(2) have "list_all2 (\<lambda>x y. decode h' n x = Some y) xs js"
        by (rule list_all2_mono) (rule Suc.IH [OF Suc.prems(1)])
      with js(1) PRef ob' OList show ?thesis
        by (simp add: those_map_Some [THEN iffD2])
    next
      case (ODict kvs)
      with Suc.prems PRef ob obtain jkvs where
        js: "j = JObj jkvs"
          "list_all2 (\<lambda>x y. map_option (Pair (fst x)) (decode h n (snd x)) = Some y) kvs jkvs"
        by (auto simp: those_map_Some)
      from js(2) have
        "list_all2 (\<lambda>x y. map_option (Pair (fst x)) (decode h' n (snd x)) = Some y) kvs jkvs"
        by (rule list_all2_mono) (auto dest: Suc.IH [OF Suc.prems(1)])
      with js(1) PRef ob' ODict show ?thesis
        by (simp add: those_map_Some [THEN iffD2])
    qed
  qed (use Suc.prems in simp_all)
qed

lemma decode_mono:
  "decode h n v = Some j \<Longrightarrow> n \<le> m \<Longrightarrow> decode h m v = Some j"
proof (induction n arbitrary: m v j)
  case 0
  then show ?case by (cases v) simp_all
next
  case (Suc n)
  from Suc.prems(2) obtain m' where m: "m = Suc m'" "n \<le> m'"
    by (cases m) auto
  show ?case
  proof (cases v)
    case (PRef a)
    with Suc.prems obtain ob where ob: "obj_at h a = Some ob"
      by (auto split: option.splits)
    show ?thesis
    proof (cases ob)
      case (OList xs)
      with Suc.prems PRef ob obtain js where
        js: "j = JList js" "list_all2 (\<lambda>x y. decode h n x = Some y) xs js"
        by (auto simp: those_map_Some)
      from js(2) have "list_all2 (\<lambda>x y. decode h m' x = Some y) xs js"
        by (rule list_all2_mono) (rule Suc.IH [OF _ m(2)])
      with js(1) PRef ob OList show ?thesis
        by (simp add: m those_map_Some [THEN iffD2])
    next
      case (ODict kvs)
      with Suc.prems PRef ob obtain jkvs where
        js: "j = JObj jkvs"
          "list_all2 (\<lambda>x y. map_option (Pair (fst x)) (decode h n (snd x)) = Some y) kvs jkvs"
        by (auto simp: those_map_Some)
      from js(2) have
        "list_all2 (\<lambda>x y. map_option (Pair (fst x)) (decode h m' (snd x)) = Some y) kvs jkvs"
        by (rule list_all2_mono) (auto dest: Suc.IH [OF _ m(2)])
      with js(1) PRef ob ODict show ?thesis
        by (simp add: m those_map_Some [THEN iffD2])
    qed
  qed (use Suc.prems in simp_all)
qed

lemma rep_prefix: "prefix h h' \<Longrightarrow> rep h v j \<Longrightarrow> rep h' v j"
  unfolding rep_def by (rule decode_prefix)

subsection \<open>The operations on the store and on JSON values agree\<close>

lemma rep_scalars [simp]:
  "rep h PNone j \<longleftrightarrow> j = JNull" "rep h (PBool b) j \<longleftrightarrow> j = JBool b"
  "rep h (PInt i) j \<longleftrightarrow> j = JInt i" "rep h (PStr s) j \<longleftrightarrow> j = JStr s"
  "rep h (PFloat f) j \<longleftrightarrow> j = JFloat f"
  by (auto simp: rep_def)

lemma recursion_limit_Suc: "\<exists>m. recursion_limit = Suc m"
  by (simp add: recursion_limit_def numeral_eq_Suc)

lemma rep_PRefD:
  assumes "rep h (PRef a) j"
  obtains (list) xs js where "obj_at h a = Some (OList xs)" "j = JList js"
      "list_all2 (rep h) xs js"
    | (dict) pkvs kvs where "obj_at h a = Some (ODict pkvs)" "j = JObj kvs"
      "rep_items h pkvs kvs"
proof -
  obtain m where m: "recursion_limit = Suc m"
    using recursion_limit_Suc by blast
  have up: "decode h m v = Some y \<Longrightarrow> rep h v y" for v y
    unfolding rep_def using decode_mono [of h m v y recursion_limit] by (simp add: m)
  from assms obtain ob where ob: "obj_at h a = Some ob"
    by (auto simp: rep_def m split: option.splits)
  show thesis
  proof (cases ob)
    case (OList xs)
    with assms ob obtain js where
      js: "j = JList js" "list_all2 (\<lambda>x y. decode h m x = Some y) xs js"
      by (auto simp: rep_def m those_map_Some)
    from js(2) have "list_all2 (rep h) xs js"
      by (rule list_all2_mono) (rule up)
    with ob OList js(1) show thesis by (intro list) simp_all
  next
    case (ODict pkvs)
    with assms ob obtain kvs where
      js: "j = JObj kvs"
        "list_all2 (\<lambda>x y. map_option (Pair (fst x)) (decode h m (snd x)) = Some y) pkvs kvs"
      by (auto simp: rep_def m those_map_Some)
    from js(2) have "rep_items h pkvs kvs"
      unfolding rep_items_def by (rule list_all2_mono) (auto dest: up)
    with ob ODict js(1) show thesis by (intro dict) simp_all
  qed
qed

lemma rep_PRef_scalar [simp]:
  "\<not> rep h (PRef a) JNull" "\<not> rep h (PRef a) (JBool b)" "\<not> rep h (PRef a) (JInt i)"
  "\<not> rep h (PRef a) (JStr s)" "\<not> rep h (PRef a) (JFloat f)"
  by (auto elim: rep_PRefD)

lemma rep_observers:
  assumes "rep h v j"
  shows "truthy_st h v = truthy j" "is_dict_st h v = is_dict j" "is_list_st h v = is_list j"
    "type_name_st h v = type_name j"
proof -
  have "truthy_st h v = truthy j \<and> is_dict_st h v = is_dict j \<and> is_list_st h v = is_list j
    \<and> type_name_st h v = type_name j"
  proof (cases v)
    case (PRef a)
    from assms [unfolded PRef] show ?thesis
    proof (cases rule: rep_PRefD)
      case (list xs js)
      then show ?thesis
        by (auto simp: PRef truthy_st_def is_dict_st_def is_list_st_def type_name_st_def
              dest: list_all2_lengthD)
    next
      case (dict pkvs kvs)
      then show ?thesis
        by (auto simp: PRef truthy_st_def is_dict_st_def is_list_st_def type_name_st_def
              rep_items_def dest: list_all2_lengthD)
    qed
  qed (use assms in \<open>simp_all add: truthy_st_def is_dict_st_def is_list_st_def type_name_st_def\<close>)
  then show "truthy_st h v = truthy j" "is_dict_st h v = is_dict j" "is_list_st h v = is_list j"
    "type_name_st h v = type_name j"
    by simp_all
qed

lemma rep_items_dict_get:
  "rep_items h pkvs kvs \<Longrightarrow> rep h d jd \<Longrightarrow> rep h (dict_get pkvs k d) (dict_get kvs k jd)"
  unfolding rep_items_def
  by (induction pkvs kvs rule: list_all2_induct) (auto simp: dict_get_def)

lemma rep_JObjD:
  assumes "rep h v (JObj kvs)"
  obtains a pkvs where "v = PRef a" "obj_at h a = Some (ODict pkvs)" "rep_items h pkvs kvs"
proof (cases v)
  case (PRef a)
  from assms [unfolded PRef] show ?thesis
    by (cases rule: rep_PRefD) (auto intro: that simp: PRef)
qed (use assms in simp_all)

lemma rep_JListD:
  assumes "rep h v (JList js)"
  obtains a xs where "v = PRef a" "obj_at h a = Some (OList xs)" "list_all2 (rep h) xs js"
proof (cases v)
  case (PRef a)
  from assms [unfolded PRef] show ?thesis
    by (cases rule: rep_PRefD) (auto intro: that simp: PRef)
qed (use assms in simp_all)

lemma py_get_rel:
  assumes "rep h x jx" "rep h d jd"
  shows "rel_sum (=) (rep h) (py_get_st h x k d) (py_get jx k jd)"
proof (cases jx)
  case (JObj kvs)
  from assms(1) [unfolded JObj] obtain a pkvs where
    "x = PRef a" "obj_at h a = Some (ODict pkvs)" "rep_items h pkvs kvs"
    by (rule rep_JObjD)
  with assms(2) show ?thesis
    by (simp add: JObj py_get_st_def rep_items_dict_get)
next
  case JNull
  with assms(1) rep_observers [OF assms(1)] show ?thesis
    by (cases x) (auto simp: py_get_st_def is_dict_st_def split: option.splits pobj.splits)
next
  case (JBool b)
  with assms(1) rep_observers [OF assms(1)] show ?thesis
    by (cases x) (auto simp: py_get_st_def is_dict_st_def split: option.splits pobj.splits)
next
  case (JInt i)
  with assms(1) rep_observers [OF assms(1)] show ?thesis
    by (cases x) (auto simp: py_get_st_def is_dict_st_def split: option.splits pobj.splits)
next
  case (JFloat f)
  with assms(1) rep_observers [OF assms(1)] show ?thesis
    by (cases x) (auto simp: py_get_st_def is_dict_st_def split: option.splits pobj.splits)
next
  case (JStr s)
  with assms(1) rep_observers [OF assms(1)] show ?thesis
    by (cases x) (auto simp: py_get_st_def is_dict_st_def split: option.splits pobj.splits)
next
  case (JList js)
  with assms(1) rep_observers [OF assms(1)] show ?thesis
    by (cases x) (auto simp: py_get_st_def is_dict_st_def split: option.splits pobj.splits)
qed

lemma format_last_modified_rel:
  assumes "rep h v j"
  shows "rep h (format_last_modified_st h v) (format_last_modified j)"
proof (cases "truthy j")
  case False
  with rep_observers(1) [OF assms] show ?thesis
    by (simp add: format_last_modified_st_def format_last_modified_def)
next
  case True
  with rep_observers(1) [OF assms] assms show ?thesis
    by (cases v; cases j)
       (auto simp: format_last_modified_st_def format_last_modified_def split: option.splits)
qed

lemma py_str_rel: "rep h v j \<Longrightarrow> py_str_st h v = Some (py_str j)"
  by (simp add: py_str_st_def rep_def)

lemma list_append_new [simp]:
  "list_append (length h) x (h @ [OList xs]) = h @ [OList (xs @ [x])]"
  by (simp add: list_append_def)

lemma rep_items_prefix: "prefix h h' \<Longrightarrow> rep_items h pkvs kvs \<Longrightarrow> rep_items h' pkvs kvs"
  unfolding rep_items_def by (erule list_all2_mono) (auto intro: rep_prefix)

lemma rep_empty_dict:
  assumes "obj_at h a = Some (ODict [])"
  shows "rep h (PRef a) (JObj [])"
proof -
  obtain m where m: "recursion_limit = Suc m"
    using recursion_limit_Suc by blast
  from assms show ?thesis by (simp add: rep_def m)
qed

text \<open>
  The runs on the store agree with the functions on JSON values, step by step: the
  habitat loop, the defaults, the loop over the habitat types and the whole extractor.
\<close>

lemma habitat_loop_sim:
  assumes "list_all2 (rep h) items jitems"
  shows "habitat_loop_st (length h) items hk dk (h @ [OList (map PStr acc)])
           = (Inr (), h @ [OList (map PStr (habitat_loop jitems hk dk acc))])"
  using assms
proof (induction items jitems arbitrary: acc rule: list_all2_induct)
  case Nil
  then show ?case by simp
next
  case (Cons item items jitem jitems)
  let ?h1 = "h @ [OList (map PStr acc)]"
  have p: "prefix h ?h1" by simp
  have item: "rep ?h1 item jitem"
    using p Cons.hyps(1) by (rule rep_prefix)
  note IH = Cons.IH
  show ?case
  proof (cases "is_dict jitem")
    case False
    then have "habitat_loop (jitem # jitems) hk dk acc = habitat_loop jitems hk dk acc"
      by (cases jitem) simp_all
    with False rep_observers(2) [OF item] IH [of acc] show ?thesis by simp
  next
    case True
    then obtain kvs where jitem: "jitem = JObj kvs" by (cases jitem) simp_all
    let ?jho = "dict_get kvs hk JNull"
    have "rel_sum (=) (rep ?h1) (py_get_st ?h1 item hk PNone) (py_get jitem hk JNull)"
      by (rule py_get_rel [OF item]) simp
    then obtain ho where ho: "py_get_st ?h1 item hk PNone = Inr ho" "rep ?h1 ho ?jho"
      by (cases "py_get_st ?h1 item hk PNone") (simp_all add: jitem)
    show ?thesis
    proof (cases "is_dict ?jho")
      case False
      then have "habitat_loop (jitem # jitems) hk dk acc = habitat_loop jitems hk dk acc"
        by (cases ?jho) (simp_all add: jitem)
      with False True rep_observers(2) [OF item] rep_observers(2) [OF ho(2)] ho(1) IH [of acc]
      show ?thesis by simp
    next
      case ho_dict: True
      then obtain hkvs where jho: "?jho = JObj hkvs" by (cases ?jho) simp_all
      let ?jd = "dict_get hkvs dk JNull"
      have "rel_sum (=) (rep ?h1) (py_get_st ?h1 ho dk PNone) (py_get ?jho dk JNull)"
        by (rule py_get_rel [OF ho(2)]) simp
      then obtain desc where desc: "py_get_st ?h1 ho dk PNone = Inr desc" "rep ?h1 desc ?jd"
        by (cases "py_get_st ?h1 ho dk PNone") (simp_all add: jho)
      have pure: "habitat_loop (jitem # jitems) hk dk acc
        = (if truthy ?jd then habitat_loop jitems hk dk (acc @ [py_str ?jd])
           else habitat_loop jitems hk dk acc)"
        by (simp add: jitem jho Let_def)
      show ?thesis
        using True ho_dict rep_observers(2) [OF item] rep_observers(2) [OF ho(2)] ho(1) desc(1)
          rep_observers(1) [OF desc(2)] py_str_rel [OF desc(2)] IH [of acc]
          IH [of "acc @ [py_str ?jd]"]
        by (simp add: pure del: habitat_loop.simps)
    qed
  qed
qed

lemma map_pstr_PStr [simp]: "map pstr (map PStr ds) = ds" "map (pstr \<circ> PStr) ds = ds"
  by (induction ds) simp_all

lemma extract_habitat_descriptions_sim:
  assumes "rep h hl jhl"
  shows "\<exists>v h'. extract_habitat_descriptions_st hl hk dk h = (Inr v, h') \<and> prefix h h'
           \<and> (\<forall>h''. rep h'' v (extract_habitat_descriptions jhl hk dk))"
proof (cases "truthy jhl \<and> is_list jhl")
  case False
  with rep_observers [OF assms] show ?thesis
    by (auto simp: extract_habitat_descriptions_st_def extract_habitat_descriptions_def)
next
  case True
  then obtain js where jhl: "jhl = JList js" by (cases jhl) simp_all
  from assms [unfolded jhl] obtain a items where
    hl: "hl = PRef a" "obj_at h a = Some (OList items)" "list_all2 (rep h) items js"
    by (rule rep_JListD)
  have loop: "habitat_loop_st (length h) items hk dk (h @ [OList []])
           = (Inr (), h @ [OList (map PStr (habitat_loop js hk dk []))])"
    using habitat_loop_sim [OF hl(3), of hk dk "[]"] by simp
  show ?thesis
    using True rep_observers [OF assms] hl(1,2) loop
    by (simp add: extract_habitat_descriptions_st_def extract_habitat_descriptions_def jhl)
qed

lemma sim_bind:
  assumes "sim R h p s"
    and "\<And>v j h'. prefix h h' \<Longrightarrow> R h' v j \<Longrightarrow> sim R' h' (f j) (g v h')"
  shows "sim R' h (bind_err p f) (bind_st s g)"
proof (cases s)
  case (Pair r h')
  with assms(1) have p: "prefix h h'" and rel: "rel_sum (=) (R h') r p"
    by (simp_all add: sim_def)
  show ?thesis
  proof (cases r)
    case (Inl e)
    with rel have "p = Inl e" by (cases p) simp_all
    with Pair Inl p show ?thesis by (simp add: sim_def bind_st_def)
  next
    case (Inr v)
    with rel obtain j where j: "p = Inr j" "R h' v j" by (cases p) simp_all
    from assms(2) [OF p j(2)] have "sim R' h' (f j) (g v h')" .
    with p have "sim R' h (f j) (g v h')"
      by (auto simp: sim_def)
    with Pair Inr j(1) show ?thesis by (simp add: bind_st_def)
  qed
qed

lemma bind_err_rel:
  assumes "rel_sum (=) R s p"
    and "\<And>v j. R v j \<Longrightarrow> rel_sum (=) R' (g v) (f j)"
  shows "rel_sum (=) R' (bind_err s g) (bind_err p f)"
  using assms by (cases s; cases p) simp_all

lemma bind_get_rel:
  assumes "rep h x jx"
    and "\<And>v j. rep h v j \<Longrightarrow> rel_sum (=) R' (g v) (f j)"
  shows "rel_sum (=) R' (bind_err (py_get_st h x k PNone) g) (bind_err (py_get jx k JNull) f)"
  by (rule bind_err_rel [OF py_get_rel [OF assms(1)]]) (simp, rule assms(2))

lemma get_or_empty_sim:
  assumes "rep h x jx"
  shows "sim rep h (get_or_empty jx k) (get_or_empty_st x k h)"
proof (cases "is_dict jx")
  case False
  with rep_observers [OF assms] show ?thesis
    by (simp add: sim_def get_or_empty_st_def get_or_empty_if)
next
  case True
  then obtain kvs where jx: "jx = JObj kvs" by (cases jx) simp_all
  from assms [unfolded jx] obtain a pkvs where
    x: "x = PRef a" "obj_at h a = Some (ODict pkvs)" "rep_items h pkvs kvs"
    by (rule rep_JObjD)
  let ?h1 = "h @ [ODict []]"
  let ?v = "dict_get pkvs k (PRef (length h))"
  let ?j = "dict_get kvs k (JObj [])"
  have a: "a < length h" using x(2) by (simp add: obj_at_def split: if_splits)
  have p: "prefix h ?h1" by simp
  have d: "rep ?h1 (PRef (length h)) (JObj [])"
    by (rule rep_empty_dict) simp
  have v: "rep ?h1 ?v ?j"
    by (rule rep_items_dict_get [OF rep_items_prefix [OF p x(3)] d])
  have get: "py_get_st ?h1 x k (PRef (length h)) = Inr ?v"
    using x(2) a by (simp add: py_get_st_def x(1))
  have pure: "get_or_empty jx k = Inr (if truthy ?j then ?j else JObj [])"
    by (simp add: jx get_or_empty_def)
  have e: "rep (?h1 @ [ODict []]) (PRef (length ?h1)) (JObj [])"
    by (rule rep_empty_dict) (simp only: obj_at_new)
  show ?thesis
    using True rep_observers(2) [OF assms] get v rep_observers(1) [OF v] e
    by (simp add: sim_def get_or_empty_st_def pure Let_def)
qed

lemma py_get_st_prefix:
  assumes "prefix hb h" "rep hb x jx"
  shows "py_get_st h x k d = py_get_st hb x k d"
proof (cases x)
  case (PRef a)
  from assms(2) [unfolded PRef] show ?thesis
    by (cases rule: rep_PRefD)
       (auto simp: PRef py_get_st_def type_name_st_def dest: obj_at_prefix [OF assms(1)])
qed (simp_all add: py_get_st_def type_name_st_def)

lemma prefix_list_update: "prefix xs ys \<Longrightarrow> length xs \<le> i \<Longrightarrow> prefix xs (ys[i := y])"
  by (auto simp: prefix_def list_update_append)

lemma rep_items_dict_set:
  "rep_items h pkvs kvs \<Longrightarrow> rep h v j \<Longrightarrow> rep_items h (dict_set pkvs k v) (dict_set kvs k j)"
  unfolding rep_items_def
  by (induction pkvs kvs rule: list_all2_induct) auto

lemma dict_setitem_at:
  "obj_at h e = Some (ODict pkvs) \<Longrightarrow> dict_setitem e k v h = h[e := ODict (dict_set pkvs k v)]"
  by (simp add: dict_setitem_def)

lemma obj_at_update: "e < length h \<Longrightarrow> obj_at (h[e := ob]) e = Some ob"
  by (simp add: obj_at_def)

lemma habitat_fields_sim:
  assumes sc: "rep hb sc jsc"
  shows "prefix hb h \<Longrightarrow> obj_at h (length hb) = Some (ODict pkvs) \<Longrightarrow>
     rep_items hb pkvs extracted \<Longrightarrow>
     \<exists>r h'. habitat_fields_st hts sc (length hb) h = (r, h') \<and> prefix hb h' \<and>
       (case habitat_fields hts jsc extracted of
          Inl err \<Rightarrow> r = Inl err
        | Inr flat \<Rightarrow> r = Inr (PRef (length hb))
            \<and> (\<exists>pkvs'. obj_at h' (length hb) = Some (ODict pkvs') \<and> rep_items hb pkvs' flat))"
proof (induction hts arbitrary: h pkvs extracted)
  case Nil
  then show ?case by simp
next
  case (Cons t rest)
  obtain api_key habitat_key desc_key output_key where
    t: "t = (api_key, habitat_key, desc_key, output_key)"
    by (cases t)
  have get: "py_get_st h sc api_key PNone = py_get_st hb sc api_key PNone"
    by (rule py_get_st_prefix [OF Cons.prems(1) sc])
  have rel: "rel_sum (=) (rep hb) (py_get_st hb sc api_key PNone) (py_get jsc api_key JNull)"
    by (rule py_get_rel [OF sc]) simp
  show ?case
  proof (cases "py_get jsc api_key JNull")
    case (Inl err)
    with rel have "py_get_st hb sc api_key PNone = Inl err"
      by (cases "py_get_st hb sc api_key PNone") simp_all
    with Inl get Cons.prems(1) show ?thesis
      by (simp add: t bind_st_def)
  next
    case (Inr jhd)
    with rel obtain hd where hd: "py_get_st hb sc api_key PNone = Inr hd" "rep hb hd jhd"
      by (cases "py_get_st hb sc api_key PNone") simp_all
    let ?jres = "extract_habitat_descriptions jhd habitat_key desc_key"
    from extract_habitat_descriptions_sim [OF rep_prefix [OF Cons.prems(1) hd(2)]]
    obtain v h1 where
      ex: "extract_habitat_descriptions_st hd habitat_key desc_key h = (Inr v, h1)"
        "prefix h h1" "rep hb v ?jres"
      by blast
    have at1: "obj_at h1 (length hb) = Some (ODict pkvs)"
      by (rule obj_at_prefix [OF ex(2) Cons.prems(2)])
    let ?h2 = "h1[length hb := ODict (dict_set pkvs output_key v)]"
    have set: "dict_setitem (length hb) output_key v h1 = ?h2"
      by (rule dict_setitem_at [OF at1])
    have p1: "prefix hb h1"
      using Cons.prems(1) ex(2) by (rule prefix_order.trans)
    have p2: "prefix hb ?h2"
      by (rule prefix_list_update [OF p1]) simp
    have at2: "obj_at ?h2 (length hb) = Some (ODict (dict_set pkvs output_key v))"
      using at1 by (intro obj_at_update) (simp add: obj_at_def split: if_splits)
    have items: "rep_items hb (dict_set pkvs output_key v) (dict_set extracted output_key ?jres)"
      by (rule rep_items_dict_set [OF Cons.prems(3) ex(3)])
    from Cons.IH [OF p2 at2 items] show ?thesis
      using Inr hd(1) get ex(1) set
      by (simp add: t bind_st_def)
  qed
qed

lemma extract_data_sim:
  assumes "rep h v j"
  shows "sim (flat_rep (length h)) h (extract_data j) (extract_data_st v h)"
  unfolding extract_data_def extract_data_st_def
proof (rule sim_bind [OF get_or_empty_sim [OF assms]])
  fix sc jsc h1
  assume p1: "prefix h h1" and sc1: "rep h1 sc jsc"
  have v1: "rep h1 v j" by (rule rep_prefix [OF p1 assms])
  show "sim (flat_rep (length h)) h1
     (bind_err (get_or_empty j ''speciesGlobal'') (\<lambda>species_global.
      bind_err (get_or_empty j ''rankInfo'') (\<lambda>rank_info.
      bind_err (get_or_empty rank_info ''rangeExtent'') (\<lambda>range_extent.
      bind_err (py_get j ''lastModified'' JNull) (\<lambda>last_modified.
      let last_modified_readable = format_last_modified last_modified in
      bind_err (py_get j ''elementGlobalId'' JNull) (\<lambda>v1.
      bind_err (py_get j ''uniqueId'' JNull) (\<lambda>v2.
      bind_err (py_get species_global ''elementGlobalId'' JNull) (\<lambda>v3.
      bind_err (py_get j ''primaryCommonName'' JNull) (\<lambda>v4.
      bind_err (py_get j ''scientificName'' JNull) (\<lambda>v5.
      bind_err (py_get j ''grankReasons'' JNull) (\<lambda>v7.
      bind_err (py_get jsc ''habitatComments'' JNull) (\<lambda>v8.
      bind_err (py_get range_extent ''rangeExtentDescEn'' JNull) (\<lambda>v9.
      habitat_fields habitat_types jsc
        [(''elementGlobalId'', v1), (''uniqueId'', v2), (''speciesGlobalElementGlobalId'', v3),
         (''primaryCommonName'', v4), (''scientificName'', v5),
         (''lastModified'', last_modified_readable), (''grankReasons'', v7),
         (''habitatComments'', v8), (''rangeExtent'', v9)])))))))))))))
     (bind_st (get_or_empty_st v ''speciesGlobal'' h1) (\<lambda>species_global h.
      bind_st (get_or_empty_st v ''rankInfo'' h) (\<lambda>rank_info h.
      bind_st (get_or_empty_st rank_info ''rangeExtent'' h) (\<lambda>range_extent h.
      case
        bind_err (py_get_st h v ''lastModified'' PNone) (\<lambda>last_modified.
        let last_modified_readable = format_last_modified_st h last_modified in
        bind_err (py_get_st h v ''elementGlobalId'' PNone) (\<lambda>v1.
        bind_err (py_get_st h v ''uniqueId'' PNone) (\<lambda>v2.
        bind_err (py_get_st h species_global ''elementGlobalId'' PNone) (\<lambda>v3.
        bind_err (py_get_st h v ''primaryCommonName'' PNone) (\<lambda>v4.
        bind_err (py_get_st h v ''scientificName'' PNone) (\<lambda>v5.
        bind_err (py_get_st h v ''grankReasons'' PNone) (\<lambda>v7.
        bind_err (py_get_st h sc ''habitatComments'' PNone) (\<lambda>v8.
        bind_err (py_get_st h range_extent ''rangeExtentDescEn'' PNone) (\<lambda>v9.
        Inr [(''elementGlobalId'', v1), (''uniqueId'', v2),
             (''speciesGlobalElementGlobalId'', v3), (''primaryCommonName'', v4),
             (''scientificName'', v5), (''lastModified'', last_modified_readable),
             (''grankReasons'', v7), (''habitatComments'', v8), (''rangeExtent'', v9)])))))))))
      of
        Inl e \<Rightarrow> (Inl e, h)
      | Inr entries \<Rightarrow>
          habitat_fields_st habitat_types sc (length h) (h @ [ODict entries])))))"
  proof (rule sim_bind [OF get_or_empty_sim [OF v1]])
    fix sg jsg h2
    assume p2: "prefix h1 h2" and sg2: "rep h2 sg jsg"
    have v2: "rep h2 v j" by (rule rep_prefix [OF p2 v1])
    have sc2: "rep h2 sc jsc" by (rule rep_prefix [OF p2 sc1])
    show "sim (flat_rep (length h)) h2
     (bind_err (get_or_empty j ''rankInfo'') (\<lambda>rank_info.
      bind_err (get_or_empty rank_info ''rangeExtent'') (\<lambda>range_extent.
      bind_err (py_get j ''lastModified'' JNull) (\<lambda>last_modified.
      let last_modified_readable = format_last_modified last_modified in
      bind_err (py_get j ''elementGlobalId'' JNull) (\<lambda>v1.
      bind_err (py_get j ''uniqueId'' JNull) (\<lambda>v2.
      bind_err (py_get jsg ''elementGlobalId'' JNull) (\<lambda>v3.
      bind_err (py_get j ''primaryCommonName'' JNull) (\<lambda>v4.
      bind_err (py_get j ''scientificName'' JNull) (\<lambda>v5.
      bind_err (py_get j ''grankReasons'' JNull) (\<lambda>v7.
      bind_err (py_get jsc ''habitatComments'' JNull) (\<lambda>v8.
      bind_err (py_get range_extent ''rangeExtentDescEn'' JNull) (\<lambda>v9.
      habitat_fields habitat_types jsc
        [(''elementGlobalId'', v1), (''uniqueId'', v2), (''speciesGlobalElementGlobalId'', v3),
         (''primaryCommonName'', v4), (''scientificName'', v5),
         (''lastModified'', last_modified_readable), (''grankReasons'', v7),
         (''habitatComments'', v8), (''rangeExtent'', v9)]))))))))))))
     (bind_st (get_or_empty_st v ''rankInfo'' h2) (\<lambda>rank_info h.
      bind_st (get_or_empty_st rank_info ''rangeExtent'' h) (\<lambda>range_extent h.
      case
        bind_err (py_get_st h v ''lastModified'' PNone) (\<lambda>last_modified.
        let last_modified_readable = format_last_modified_st h last_modified in
        bind_err (py_get_st h v ''elementGlobalId'' PNone) (\<lambda>v1.
        bind_err (py_get_st h v ''uniqueId'' PNone) (\<lambda>v2.
        bind_err (py_get_st h sg ''elementGlobalId'' PNone) (\<lambda>v3.
        bind_err (py_get_st h v ''primaryCommonName'' PNone) (\<lambda>v4.
        bind_err (py_get_st h v ''scientificName'' PNone) (\<lambda>v5.
        bind_err (py_get_st h v ''grankReasons'' PNone) (\<lambda>v7.
        bind_err (py_get_st h sc ''habitatComments'' PNone) (\<lambda>v8.
        bind_err (py_get_st h range_extent ''rangeExtentDescEn'' PNone) (\<lambda>v9.
        Inr [(''elementGlobalId'', v1), (''uniqueId'', v2),
             (''speciesGlobalElementGlobalId'', v3), (''primaryCommonName'', v4),
             (''scientificName'', v5), (''lastModified'', last_modified_readable),
             (''grankReasons'', v7), (''habitatComments'', v8), (''rangeExtent'', v9)])))))))))
      of
        Inl e \<Rightarrow> (Inl e, h)
      | Inr entries \<Rightarrow>
          habitat_fields_st habitat_types sc (length h) (h @ [ODict entries]))))"
    proof (rule sim_bind [OF get_or_empty_sim [OF v2]])
      fix ri jri h3
      assume p3: "prefix h2 h3" and ri3: "rep h3 ri jri"
      have v3: "rep h3 v j" by (rule rep_prefix [OF p3 v2])
      have sc3: "rep h3 sc jsc" by (rule rep_prefix [OF p3 sc2])
      have sg3: "rep h3 sg jsg" by (rule rep_prefix [OF p3 sg2])
      show "sim (flat_rep (length h)) h3
       (bind_err (get_or_empty jri ''rangeExtent'') (\<lambda>range_extent.
        bind_err (py_get j ''lastModified'' JNull) (\<lambda>last_modified.
        let last_modified_readable = format_last_modified last_modified in
        bind_err (py_get j ''elementGlobalId'' JNull) (\<lambda>v1.
        bind_err (py_get j ''uniqueId'' JNull) (\<lambda>v2.
        bind_err (py_get jsg ''elementGlobalId'' JNull) (\<lambda>v3.
        bind_err (py_get j ''primaryCommonName'' JNull) (\<lambda>v4.
        bind_err (py_get j ''scientificName'' JNull) (\<lambda>v5.
        bind_err (py_get j ''grankReasons'' JNull) (\<lambda>v7.
        bind_err (py_get jsc ''habitatComments'' JNull) (\<lambda>v8.
        bind_err (py_get range_extent ''rangeExtentDescEn'' JNull) (\<lambda>v9.
        habitat_fields habitat_types jsc
          [(''elementGlobalId'', v1), (''uniqueId'', v2), (''speciesGlobalElementGlobalId'', v3),
           (''primaryCommonName'', v4), (''scientificName'', v5),
           (''lastModified'', last_modified_readable), (''grankReasons'', v7),
           (''habitatComments'', v8), (''rangeExtent'', v9)])))))))))))
       (bind_st (get_or_empty_st ri ''rangeExtent'' h3) (\<lambda>range_extent h.
        case
          bind_err (py_get_st h v ''lastModified'' PNone) (\<lambda>last_modified.
          let last_modified_readable = format_last_modified_st h last_modified in
          bind_err (py_get_st h v ''elementGlobalId'' PNone) (\<lambda>v1.
          bind_err (py_get_st h v ''uniqueId'' PNone) (\<lambda>v2.
          bind_err (py_get_st h sg ''elementGlobalId'' PNone) (\<lambda>v3.
          bind_err (py_get_st h v ''primaryCommonName'' PNone) (\<lambda>v4.
          bind_err (py_get_st h v ''scientificName'' PNone) (\<lambda>v5.
          bind_err (py_get_st h v ''grankReasons'' PNone) (\<lambda>v7.
          bind_err (py_get_st h sc ''habitatComments'' PNone) (\<lambda>v8.
          bind_err (py_get_st h range_extent ''rangeExtentDescEn'' PNone) (\<lambda>v9.
          Inr [(''elementGlobalId'', v1), (''uniqueId'', v2),
               (''speciesGlobalElementGlobalId'', v3), (''primaryCommonName'', v4),
               (''scientificName'', v5), (''lastModified'', last_modified_readable),
               (''grankReasons'', v7), (''habitatComments'', v8), (''rangeExtent'', v9)])))))))))
        of
          Inl e \<Rightarrow> (Inl e, h)
        | Inr entries \<Rightarrow>
            habitat_fields_st habitat_types sc (length h) (h @ [ODict entries])))"
      proof (rule sim_bind [OF get_or_empty_sim [OF ri3]])
        fix re jre h4
        assume p4: "prefix h3 h4" and re4: "rep h4 re jre"
        have v4: "rep h4 v j" by (rule rep_prefix [OF p4 v3])
        have sc4: "rep h4 sc jsc" by (rule rep_prefix [OF p4 sc3])
        have sg4: "rep h4 sg jsg" by (rule rep_prefix [OF p4 sg3])
        have len: "length h \<le> length h4"
          using p1 p2 p3 p4 by (auto dest!: prefix_length_le)
        let ?pure = "bind_err (py_get j ''lastModified'' JNull) (\<lambda>last_modified.
          bind_err (py_get j ''elementGlobalId'' JNull) (\<lambda>v1.
          bind_err (py_get j ''uniqueId'' JNull) (\<lambda>v2.
          bind_err (py_get jsg ''elementGlobalId'' JNull) (\<lambda>v3.
          bind_err (py_get j ''primaryCommonName'' JNull) (\<lambda>v4.
          bind_err (py_get j ''scientificName'' JNull) (\<lambda>v5.
          bind_err (py_get j ''grankReasons'' JNull) (\<lambda>v7.
          bind_err (py_get jsc ''habitatComments'' JNull) (\<lambda>v8.
          bind_err (py_get jre ''rangeExtentDescEn'' JNull) (\<lambda>v9.
          Inr [(''elementGlobalId'', v1), (''uniqueId'', v2),
               (''speciesGlobalElementGlobalId'', v3), (''primaryCommonName'', v4),
               (''scientificName'', v5),
               (''lastModified'', format_last_modified last_modified),
               (''grankReasons'', v7), (''habitatComments'', v8), (''rangeExtent'', v9)])))))))))"
        let ?st = "bind_err (py_get_st h4 v ''lastModified'' PNone) (\<lambda>last_modified.
          bind_err (py_get_st h4 v ''elementGlobalId'' PNone) (\<lambda>v1.
          bind_err (py_get_st h4 v ''uniqueId'' PNone) (\<lambda>v2.
          bind_err (py_get_st h4 sg ''elementGlobalId'' PNone) (\<lambda>v3.
          bind_err (py_get_st h4 v ''primaryCommonName'' PNone) (\<lambda>v4.
          bind_err (py_get_st h4 v ''scientificName'' PNone) (\<lambda>v5.
          bind_err (py_get_st h4 v ''grankReasons'' PNone) (\<lambda>v7.
          bind_err (py_get_st h4 sc ''habitatComments'' PNone) (\<lambda>v8.
          bind_err (py_get_st h4 re ''rangeExtentDescEn'' PNone) (\<lambda>v9.
          Inr [(''elementGlobalId'', v1), (''uniqueId'', v2),
               (''speciesGlobalElementGlobalId'', v3), (''primaryCommonName'', v4),
               (''scientificName'', v5),
               (''lastModified'', format_last_modified_st h4 last_modified),
               (''grankReasons'', v7), (''habitatComments'', v8), (''rangeExtent'', v9)])))))))))"
        have chain: "rel_sum (=) (rep_items h4) ?st ?pure"
          by (intro bind_get_rel [OF v4] bind_get_rel [OF sg4] bind_get_rel [OF sc4]
                bind_get_rel [OF re4])
             (simp add: rep_items_def format_last_modified_rel)
        have pure_eq: "(bind_err (py_get j ''lastModified'' JNull) (\<lambda>last_modified.
          let last_modified_readable = format_last_modified last_modified in
          bind_err (py_get j ''elementGlobalId'' JNull) (\<lambda>v1.
          bind_err (py_get j ''uniqueId'' JNull) (\<lambda>v2.
          bind_err (py_get jsg ''elementGlobalId'' JNull) (\<lambda>v3.
          bind_err (py_get j ''primaryCommonName'' JNull) (\<lambda>v4.
          bind_err (py_get j ''scientificName'' JNull) (\<lambda>v5.
          bind_err (py_get j ''grankReasons'' JNull) (\<lambda>v7.
          bind_err (py_get jsc ''habitatComments'' JNull) (\<lambda>v8.
          bind_err (py_get jre ''rangeExtentDescEn'' JNull) (\<lambda>v9.
          habitat_fields habitat_types jsc
            [(''elementGlobalId'', v1), (''uniqueId'', v2), (''speciesGlobalElementGlobalId'', v3),
             (''primaryCommonName'', v4), (''scientificName'', v5),
             (''lastModified'', last_modified_readable), (''grankReasons'', v7),
             (''habitatComments'', v8), (''rangeExtent'', v9)]))))))))))
          = bind_err ?pure (habitat_fields habitat_types jsc)"
          by (simp add: bind_err_def Let_def split: sum.splits)
        have st_eq: "(bind_err (py_get_st h4 v ''lastModified'' PNone) (\<lambda>last_modified.
          let last_modified_readable = format_last_modified_st h4 last_modified in
          bind_err (py_get_st h4 v ''elementGlobalId'' PNone) (\<lambda>v1.
          bind_err (py_get_st h4 v ''uniqueId'' PNone) (\<lambda>v2.
          bind_err (py_get_st h4 sg ''elementGlobalId'' PNone) (\<lambda>v3.
          bind_err (py_get_st h4 v ''primaryCommonName'' PNone) (\<lambda>v4.
          bind_err (py_get_st h4 v ''scientificName'' PNone) (\<lambda>v5.
          bind_err (py_get_st h4 v ''grankReasons'' PNone) (\<lambda>v7.
          bind_err (py_get_st h4 sc ''habitatComments'' PNone) (\<lambda>v8.
          bind_err (py_get_st h4 re ''rangeExtentDescEn'' PNone) (\<lambda>v9.
          Inr [(''elementGlobalId'', v1), (''uniqueId'', v2),
               (''speciesGlobalElementGlobalId'', v3), (''primaryCommonName'', v4),
               (''scientificName'', v5), (''lastModified'', last_modified_readable),
               (''grankReasons'', v7), (''habitatComments'', v8), (''rangeExtent'', v9)]))))))))))
          = ?st"
          by (simp add: Let_def)
        have "sim (flat_rep (length h)) h4 (bind_err ?pure (habitat_fields habitat_types jsc))
          (case ?st of
             Inl e \<Rightarrow> (Inl e, h4)
           | Inr entries \<Rightarrow>
               habitat_fields_st habitat_types sc (length h4) (h4 @ [ODict entries]))"
        proof (cases ?pure)
          case (Inl err)
          with chain have "?st = Inl err" by (cases ?st) simp_all
          with Inl show ?thesis by (simp add: sim_def)
        next
          case (Inr jentries)
          with chain obtain entries where
            entries: "?st = Inr entries" "rep_items h4 entries jentries"
            by (cases ?st) simp_all
          from habitat_fields_sim [OF sc4, of "h4 @ [ODict entries]" entries jentries habitat_types]
            entries(2)
          obtain r h' where
            hf: "habitat_fields_st habitat_types sc (length h4) (h4 @ [ODict entries]) = (r, h')"
              "prefix h4 h'"
              "case habitat_fields habitat_types jsc jentries of
                 Inl err \<Rightarrow> r = Inl err
               | Inr flat \<Rightarrow> r = Inr (PRef (length h4))
                   \<and> (\<exists>pkvs'. obj_at h' (length h4) = Some (ODict pkvs') \<and> rep_items h4 pkvs' flat)"
            by auto
          show ?thesis
            using hf len Inr entries(1)
            by (auto simp: sim_def flat_rep_def split: sum.splits
                  intro: rep_items_prefix [OF hf(2)])
        qed
        then show "sim (flat_rep (length h)) h4
         (bind_err (py_get j ''lastModified'' JNull) (\<lambda>last_modified.
          let last_modified_readable = format_last_modified last_modified in
          bind_err (py_get j ''elementGlobalId'' JNull) (\<lambda>v1.
          bind_err (py_get j ''uniqueId'' JNull) (\<lambda>v2.
          bind_err (py_get jsg ''elementGlobalId'' JNull) (\<lambda>v3.
          bind_err (py_get j ''primaryCommonName'' JNull) (\<lambda>v4.
          bind_err (py_get j ''scientificName'' JNull) (\<lambda>v5.
          bind_err (py_get j ''grankReasons'' JNull) (\<lambda>v7.
          bind_err (py_get jsc ''habitatComments'' JNull) (\<lambda>v8.
          bind_err (py_get jre ''rangeExtentDescEn'' JNull) (\<lambda>v9.
          habitat_fields habitat_types jsc
            [(''elementGlobalId'', v1), (''uniqueId'', v2), (''speciesGlobalElementGlobalId'', v3),
             (''primaryCommonName'', v4), (''scientificName'', v5),
             (''lastModified'', last_modified_readable), (''grankReasons'', v7),
             (''habitatComments'', v8), (''rangeExtent'', v9)]))))))))))
         (case
            bind_err (py_get_st h4 v ''lastModified'' PNone) (\<lambda>last_modified.
            let last_modified_readable = format_last_modified_st h4 last_modified in
            bind_err (py_get_st h4 v ''elementGlobalId'' PNone) (\<lambda>v1.
            bind_err (py_get_st h4 v ''uniqueId'' PNone) (\<lambda>v2.
            bind_err (py_get_st h4 sg ''elementGlobalId'' PNone) (\<lambda>v3.
            bind_err (py_get_st h4 v ''primaryCommonName'' PNone) (\<lambda>v4.
            bind_err (py_get_st h4 v ''scientificName'' PNone) (\<lambda>v5.
            bind_err (py_get_st h4 v ''grankReasons'' PNone) (\<lambda>v7.
            bind_err (py_get_st h4 sc ''habitatComments'' PNone) (\<lambda>v8.
            bind_err (py_get_st h4 re ''rangeExtentDescEn'' PNone) (\<lambda>v9.
            Inr [(''elementGlobalId'', v1), (''uniqueId'', v2),
                 (''speciesGlobalElementGlobalId'', v3), (''primaryCommonName'', v4),
                 (''scientificName'', v5), (''lastModified'', last_modified_readable),
                 (''grankReasons'', v7), (''habitatComments'', v8), (''rangeExtent'', v9)])))))))))
          of
            Inl e \<Rightarrow> (Inl e, h4)
          | Inr entries \<Rightarrow>
              habitat_fields_st habitat_types sc (length h4) (h4 @ [ODict entries]))"
          unfolding pure_eq st_eq .
      qed
    qed
  qed
qed

lemma rep_items_those:
  "rep_items h pkvs flat \<longleftrightarrow>
     those (map (\<lambda>kv. map_option (Pair (fst kv)) (decode h recursion_limit (snd kv))) pkvs)
       = Some flat"
  unfolding rep_items_def those_map_Some rep_def
  by (rule arg_cong [where f = "\<lambda>P. list_all2 P pkvs flat"]) (auto simp: fun_eq_iff)

lemma sim_flat_of:
  assumes "sim (flat_rep n) h p s"
  shows "flat_of (snd s) (fst s) = Some p"
proof (cases p)
  case (Inl err)
  with assms show ?thesis
    by (cases "fst s") (simp_all add: sim_def flat_of_def)
next
  case (Inr flat)
  with assms obtain r where r: "fst s = Inr r" "flat_rep n (snd s) r flat"
    by (cases "fst s") (simp_all add: sim_def)
  then show ?thesis
    by (auto simp: Inr flat_of_def flat_rep_def rep_items_those [symmetric]
          split: pval.splits option.splits pobj.splits)
qed

lemma sim_fresh:
  assumes "sim (flat_rep n) h p s" "fst s = Inr r"
  shows "\<exists>e. r = PRef e \<and> n \<le> e"
  using assms by (cases p) (auto simp: sim_def flat_rep_def split: pval.splits)

subsection \<open>No object of the store is written\<close>

text \<open>
  Whatever the store holds, every step puts new objects at its end and changes only
  those: the list \<^verbatim>\<open>descriptions\<close> and the dictionary \<^verbatim>\<open>extracted\<close>.
\<close>

lemma get_or_empty_st_prefix: "prefix h (snd (get_or_empty_st x k h))"
  by (auto simp: get_or_empty_st_def Let_def split: sum.splits)

lemma bind_st_prefix:
  assumes "prefix h (snd s)" "\<And>x h'. prefix h' (snd (g x h'))"
  shows "prefix h (snd (bind_st s g))"
proof (cases s)
  case (Pair r h')
  show ?thesis
  proof (cases r)
    case (Inl e)
    with Pair assms(1) show ?thesis by (simp add: bind_st_def)
  next
    case (Inr x)
    from assms(1) Pair have "prefix h h'" by simp
    also have "prefix h' (snd (g x h'))" by (rule assms(2))
    finally show ?thesis using Pair Inr by (simp add: bind_st_def)
  qed
qed

lemma list_append_keeps:
  "length (list_append d x h) = length h \<and> take d (list_append d x h) = take d h"
  by (simp add: list_append_def split: option.splits pobj.splits)

lemma habitat_loop_st_keeps:
  "length (snd (habitat_loop_st d items hk dk h)) = length h
   \<and> take d (snd (habitat_loop_st d items hk dk h)) = take d h"
proof (induction items arbitrary: h)
  case Nil
  then show ?case by simp
next
  case (Cons item items)
  show ?case
    using Cons.IH [of h] Cons.IH [of "list_append d (PStr s) h" for s] list_append_keeps [of d _ h]
    by (auto split: sum.splits option.splits)
qed

lemma extract_habitat_descriptions_st_prefix:
  "prefix h (snd (extract_habitat_descriptions_st hl hk dk h))"
proof -
  have "prefix h (snd (habitat_loop_st (length h) items hk dk (h @ [OList []])))" for items
  proof -
    have "take (length h) (snd (habitat_loop_st (length h) items hk dk (h @ [OList []])))
          = take (length h) (h @ [OList []])"
      using habitat_loop_st_keeps by blast
    then have "take (length h) (snd (habitat_loop_st (length h) items hk dk (h @ [OList []]))) = h"
      by simp
    then show ?thesis
      by (metis take_is_prefix)
  qed
  note loop = this
  show ?thesis
  proof (cases "\<exists>a items. hl = PRef a \<and> obj_at h a = Some (OList items)
      \<and> truthy_st h hl \<and> is_list_st h hl")
    case False
    then have "extract_habitat_descriptions_st hl hk dk h = (Inr PNone, h)"
      by (auto simp: extract_habitat_descriptions_st_def
            split: pval.splits option.splits pobj.splits)
    then show ?thesis by simp
  next
    case True
    then obtain a items where
      hl: "hl = PRef a" "obj_at h a = Some (OList items)" "truthy_st h hl" "is_list_st h hl"
      by blast
    obtain r h2 where run: "habitat_loop_st (length h) items hk dk (h @ [OList []]) = (r, h2)"
      by (cases "habitat_loop_st (length h) items hk dk (h @ [OList []])")
    with loop [of items] have "prefix h h2" by simp
    with hl run show ?thesis
      by (cases r)
         (auto simp: extract_habitat_descriptions_st_def Let_def
            split: option.splits pobj.splits)
  qed
qed

lemma dict_setitem_keeps:
  "length (dict_setitem e k v h) = length h \<and> take e (dict_setitem e k v h) = take e h"
  by (simp add: dict_setitem_def split: option.splits pobj.splits)

lemma habitat_fields_st_keeps:
  "e \<le> length h \<Longrightarrow> take e (snd (habitat_fields_st hts sc e h)) = take e h"
proof (induction hts arbitrary: h)
  case Nil
  then show ?case by simp
next
  case (Cons t rest)
  obtain api_key habitat_key desc_key output_key where
    t: "t = (api_key, habitat_key, desc_key, output_key)"
    by (cases t)
  show ?case
  proof (cases "py_get_st h sc api_key PNone")
    case (Inl err)
    then show ?thesis by (simp add: t bind_st_def)
  next
    case (Inr hd)
    obtain r h1 where ex: "extract_habitat_descriptions_st hd habitat_key desc_key h = (r, h1)"
      by (cases "extract_habitat_descriptions_st hd habitat_key desc_key h")
    have p: "prefix h h1"
      using extract_habitat_descriptions_st_prefix [of h hd habitat_key desc_key] ex by simp
    then have t1: "take e h1 = take e h" and l1: "e \<le> length h1"
      using Cons.prems by (auto simp: prefix_def)
    show ?thesis
    proof (cases r)
      case (Inl err)
      with Inr ex t1 show ?thesis by (simp add: t bind_st_def)
    next
      case r: (Inr v)
      have "e \<le> length (dict_setitem e output_key v h1)"
        using l1 dict_setitem_keeps [of e output_key v h1] by simp
      from Cons.IH [OF this] dict_setitem_keeps [of e output_key v h1] t1
      show ?thesis using Inr ex r by (simp add: t bind_st_def)
    qed
  qed
qed

lemma extract_data_st_prefix: "prefix h (snd (extract_data_st v h))"
  unfolding extract_data_st_def
proof (intro bind_st_prefix get_or_empty_st_prefix)
  fix sc sg ri re :: pval and h1 h2 h3 h4 :: store
  let ?entries = "bind_err (py_get_st h4 v ''lastModified'' PNone) (\<lambda>last_modified.
       let last_modified_readable = format_last_modified_st h4 last_modified in
       bind_err (py_get_st h4 v ''elementGlobalId'' PNone) (\<lambda>v1.
       bind_err (py_get_st h4 v ''uniqueId'' PNone) (\<lambda>v2.
       bind_err (py_get_st h4 sg ''elementGlobalId'' PNone) (\<lambda>v3.
       bind_err (py_get_st h4 v ''primaryCommonName'' PNone) (\<lambda>v4.
       bind_err (py_get_st h4 v ''scientificName'' PNone) (\<lambda>v5.
       bind_err (py_get_st h4 v ''grankReasons'' PNone) (\<lambda>v7.
       bind_err (py_get_st h4 sc ''habitatComments'' PNone) (\<lambda>v8.
       bind_err (py_get_st h4 re ''rangeExtentDescEn'' PNone) (\<lambda>v9.
       Inr [(''elementGlobalId'', v1),
            (''uniqueId'', v2),
            (''speciesGlobalElementGlobalId'', v3),
            (''primaryCommonName'', v4),
            (''scientificName'', v5),
            (''lastModified'', last_modified_readable),
            (''grankReasons'', v7),
            (''habitatComments'', v8),
            (''rangeExtent'', v9)])))))))))"
  have "prefix h4 (snd (habitat_fields_st habitat_types sc (length h4) (h4 @ [ODict entries])))"
    for entries
  proof -
    have "take (length h4)
            (snd (habitat_fields_st habitat_types sc (length h4) (h4 @ [ODict entries])))
          = take (length h4) (h4 @ [ODict entries])"
      by (rule habitat_fields_st_keeps) simp
    then have "take (length h4)
            (snd (habitat_fields_st habitat_types sc (length h4) (h4 @ [ODict entries]))) = h4"
      by simp
    then show ?thesis by (metis take_is_prefix)
  qed
  then show "prefix h4
     (snd (case ?entries of
             Inl e \<Rightarrow> (Inl e, h4)
           | Inr entries \<Rightarrow>
               habitat_fields_st habitat_types sc (length h4) (h4 @ [ODict entries])))"
    by (cases ?entries) simp_all
qed



end
